theory Spec2Isabelle
  imports Complex_Main "HOL-Library.Sublist" "HOL-Library.Multiset" "HOL-Library.Word"
begin

section \<open>Smart attendance: an embedding of \<open>main.py\<close>\<close>

text \<open>
  The application has five HTTP handlers over two MongoDB collections
  (\<open>codes\<close> and \<open>attendance\<close>, \<open>db.py\<close>).  Each handler becomes a function
  that takes the request data, the clock readings it makes and the database,
  and returns either a Python exception or its response together with the
  database after the call.
\<close>

subsection \<open>Python values\<close>

text \<open>
  A Python \<open>str\<close> that the code inspects (an address, a status word, a form
  field) is a \<open>string\<close>.  The Korean texts shown to the user are only passed
  around, never inspected; they are kept as the list of their Unicode code
  points.
\<close>

type_synonym unicode = "nat list"

text \<open>
  A naive \<open>datetime\<close> is the number of microseconds since \<open>datetime.min\<close>
  (0001-01-01 00:00:00); \<open>datetime.max\<close> is 9999-12-31 23:59:59.999999, which is
  3652059 days later minus one microsecond.
\<close>

type_synonym datetime = int

definition US_PER_MINUTE :: int where
  "US_PER_MINUTE = 60000000"

definition US_PER_DAY :: int where
  "US_PER_DAY = 86400000000"

definition DATETIME_MAX :: datetime where
  "DATETIME_MAX = 3652059 * US_PER_DAY - 1"

definition MAX_DELTA_DAYS :: int where
  "MAX_DELTA_DAYS = 999999999"

datatype py_error = AttributeError | IndexError | OverflowError

text \<open>
  \<open>timedelta(minutes=m)\<close> for an \<open>int\<close> \<open>m\<close>: the duration in microseconds.  The
  constructor normalises to days, seconds and microseconds and raises
  \<open>OverflowError\<close> when the number of days exceeds \<open>MAX_DELTA_DAYS\<close> in
  magnitude.
\<close>

definition timedelta_minutes :: "int \<Rightarrow> py_error + int" where
  "timedelta_minutes m =
     (let days = (m * US_PER_MINUTE) div US_PER_DAY
      in if days < - MAX_DELTA_DAYS \<or> MAX_DELTA_DAYS < days then Inl OverflowError
         else Inr (m * US_PER_MINUTE))"

text \<open>\<open>dt + delta\<close>: raises \<open>OverflowError\<close> when the sum is not a \<open>datetime\<close>.\<close>

definition datetime_add :: "datetime \<Rightarrow> int \<Rightarrow> py_error + datetime" where
  "datetime_add dt delta =
     (if dt + delta < 0 \<or> DATETIME_MAX < dt + delta then Inl OverflowError
      else Inr (dt + delta))"

subsection \<open>String methods\<close>

definition startswith :: "string \<Rightarrow> string \<Rightarrow> bool" where
  "startswith s p = (take (length p) s = p)"

text \<open>
  \<open>s.split(sep)\<close> for a one-character separator: never empty, the pieces
  between the separators from left to right.
\<close>

fun split :: "char \<Rightarrow> string \<Rightarrow> string list" where
  "split sep [] = [[]]"
| "split sep (c # cs) =
     (if c = sep then [] # split sep cs
      else (case split sep cs of
              [] \<Rightarrow> [[c]]
            | p # ps \<Rightarrow> (c # p) # ps))"

text \<open>
  \<open>str.isspace\<close> on one character.  Header values are decoded as Latin-1, so a
  character is a code point below 256; the white space there is TAB to CR,
  FS to US, the blank, NEL and the no-break space.
\<close>

definition isspace :: "char \<Rightarrow> bool" where
  "isspace c =
     (let n = (of_char c :: nat)
      in (9 \<le> n \<and> n \<le> 13) \<or> (28 \<le> n \<and> n \<le> 32) \<or> n = 133 \<or> n = 160)"

definition strip :: "string \<Rightarrow> string" where
  "strip s = rev (dropWhile isspace (rev (dropWhile isspace s)))"

text \<open>\<open>xs[0]\<close>: raises \<open>IndexError\<close> on an empty list.\<close>

definition first_item :: "'a list \<Rightarrow> py_error + 'a" where
  "first_item xs = (case xs of [] \<Rightarrow> Inl IndexError | x # _ \<Rightarrow> Inr x)"

subsection \<open>The client address\<close>

text \<open>
  What \<open>get_client_ip\<close> reads of a request: the value of the
  \<open>x-forwarded-for\<close> header (\<open>headers.get\<close> gives \<open>None\<close> when there is none) and
  \<open>request.client\<close>, which is \<open>None\<close> when the server passes no peer address
  and otherwise a pair of host and port.
\<close>

record address =
  host :: "string option"
  port :: nat

record request =
  x_forwarded_for :: "string option"
  client :: "address option"

text \<open>Truth value of an optional \<open>str\<close>: \<open>None\<close> and the empty string are false.\<close>

fun truthy :: "string option \<Rightarrow> bool" where
  "truthy None = False"
| "truthy (Some s) = (s \<noteq> [])"

definition get_client_ip :: "request \<Rightarrow> py_error + string" where
  "get_client_ip req =
     (let xff = x_forwarded_for req
      in if truthy xff then
           (case first_item (split CHR '','' (the xff)) of
              Inl e \<Rightarrow> Inl e
            | Inr p \<Rightarrow> Inr (strip p))
         else
           (case client req of
              None \<Rightarrow> Inl AttributeError
            | Some a \<Rightarrow> if truthy (host a) then Inr (the (host a)) else Inr ''unknown''))"

subsection \<open>Classifying an address\<close>

definition CAMPUS_PREFIXES :: "string list" where
  "CAMPUS_PREFIXES = [''210.108.18.'']"

text \<open>The four messages of \<open>classify_ip\<close>, as code points.\<close>

definition MSG_DEV :: unicode where
  "MSG_DEV = [128187, 32, 47196, 52972, 32, 44060, 48156, 32, 54872, 44221, 32, 40,
     44368, 45236, 32, 50668, 48512, 32, 54032, 45800, 32, 50504, 32, 54632, 41]"

definition MSG_NORMAL :: unicode where
  "MSG_NORMAL = [9989, 32, 44368, 45236, 32, 87, 105, 70, 105, 32, 40, 49888, 47280,
     46020, 32, 45458, 51020, 41]"

definition MSG_WARNING :: unicode where
  "MSG_WARNING = [9888, 32, 51064, 51217, 32, 44053, 51032, 49892, 47, 45236, 48512,
     47581, 32, 40, 54869, 51064, 32, 54596, 50836, 41]"

definition MSG_SUSPICIOUS :: unicode where
  "MSG_SUSPICIOUS = [10071, 32, 50808, 48512, 47581, 32, 40, 76, 84, 69, 32, 46321, 41,
     32, 51032, 49900, 46120]"

definition classify_ip :: "string \<Rightarrow> string \<times> unicode" where
  "classify_ip ip =
     (if startswith ip ''127.'' \<or> ip = ''::1'' then (''DEV'', MSG_DEV)
      else if list_ex (\<lambda>prefix. startswith ip prefix) CAMPUS_PREFIXES
        then (''NORMAL'', MSG_NORMAL)
      else if startswith ip ''10.'' \<or> startswith ip ''192.168.''
        then (''WARNING'', MSG_WARNING)
      else (''SUSPICIOUS'', MSG_SUSPICIOUS))"

subsection \<open>Random codes\<close>

text \<open>
  \<open>xs[i]\<close> for an \<open>int\<close> index: a negative index counts from the end, and an
  index outside the list raises \<open>IndexError\<close>.
\<close>

definition py_index :: "'a list \<Rightarrow> int \<Rightarrow> py_error + 'a" where
  "py_index xs i =
     (if 0 \<le> i \<and> i < int (length xs) then Inr (xs ! nat i)
      else if i < 0 \<and> - int (length xs) \<le> i then Inr (xs ! nat (int (length xs) + i))
      else Inl IndexError)"

text \<open>A list comprehension whose items may raise: the first exception ends it.\<close>

fun collect :: "('e + 'a) list \<Rightarrow> 'e + 'a list" where
  "collect [] = Inr []"
| "collect (Inl e # rs) = Inl e"
| "collect (Inr x # rs) = (case collect rs of Inl e \<Rightarrow> Inl e | Inr xs \<Rightarrow> Inr (x # xs))"

text \<open>
  \<open>random()\<close> of CPython draws two 32-bit words from the generator, keeps the upper 27
  bits of the first and the upper 26 bits of the second, and returns
  \<open>(a * 67108864.0 + b) * (1.0 / 9007199254740992.0)\<close>: the fraction \<open>k / 2^53\<close> with
  \<open>k = a * 2^26 + b\<close>, which the floating-point operations compute without rounding.
  \<open>rng\<close> is the sequence of the words the generator gives next, and
  \<open>random_fraction rng i\<close> is the \<open>k\<close> of the \<open>i\<close>-th call of \<open>random()\<close>.
\<close>

definition random_fraction :: "(nat \<Rightarrow> 32 word) \<Rightarrow> nat \<Rightarrow> nat" where
  "random_fraction rng i =
     (let a = unat (rng (2 * i)) div 2 ^ 5; b = unat (rng (2 * i + 1)) div 2 ^ 6
      in a * 67108864 + b)"

text \<open>\<open>int.bit_length\<close>: the number of binary digits of a natural number.\<close>

fun bit_length :: "nat \<Rightarrow> nat" where
  "bit_length n = (if n = 0 then 0 else Suc (bit_length (n div 2)))"

declare bit_length.simps [simp del]

text \<open>\<open>m / 2^s\<close> rounded to the nearest integer, a tie to the even one.\<close>

definition round_half_even :: "nat \<Rightarrow> nat \<Rightarrow> nat" where
  "round_half_even m s =
     (let q = m div 2 ^ s; r = m mod 2 ^ s; h = 2 ^ (s - 1)
      in if s = 0 then m else if h < r \<or> (r = h \<and> odd q) then q + 1 else q)"

text \<open>
  \<open>floor(random() * n)\<close> in floating point, for \<open>random() = k / 2^53\<close> and a length \<open>n\<close>
  (below \<open>2^53\<close>, so that \<open>n + 0.0\<close> is exact): the product \<open>k * n / 2^53\<close> is rounded to
  the nearest double, which keeps 53 significant bits, and the double is rounded down.
\<close>

definition float_times_floor :: "nat \<Rightarrow> nat \<Rightarrow> int" where
  "float_times_floor k n =
     (let m = k * n; s = bit_length m - 53
      in int ((round_half_even m s * 2 ^ s) div 2 ^ 53))"

text \<open>
  \<open>random.choices(population, k=k)\<close> without weights is
  \<open>[population[floor(random() * n)] for i in range(k)]\<close> with \<open>n = len(population)\<close>.
\<close>

definition choices :: "(nat \<Rightarrow> 32 word) \<Rightarrow> 'a list \<Rightarrow> nat \<Rightarrow> py_error + 'a list" where
  "choices rng population k =
     collect (map (\<lambda>i. py_index population
                          (float_times_floor (random_fraction rng i) (length population)))
                [0..<k])"

definition string_digits :: string where
  "string_digits = ''0123456789''"

text \<open>
  Joining the one-character strings that \<open>choices\<close> draws from a string gives the
  string of those characters.
\<close>

definition generate_code :: "(nat \<Rightarrow> 32 word) \<Rightarrow> nat \<Rightarrow> py_error + string" where
  "generate_code rng len = choices rng string_digits len"

subsection \<open>The two collections\<close>

text \<open>
  A collection is the list of its documents as the store keeps them, in insertion
  order.  A document of
  \<open>codes\<close> has the keys \<open>_id\<close>, \<open>session_date\<close>, \<open>attendance_code\<close>, \<open>created_at\<close> and
  \<open>valid_until\<close>; a document of \<open>attendance\<close> has the seven keys that
  \<open>student_attend\<close> writes (its \<open>_id\<close> is never read and is left out).
\<close>

type_synonym object_id = nat

record code_doc =
  code_id :: object_id
  code_session_date :: string
  code_attendance_code :: string
  created_at :: datetime
  valid_until :: datetime

record attend_doc =
  student_name :: string
  session_date :: string
  attendance_code :: string
  ip :: string
  ip_status :: string
  ip_status_message :: unicode
  timestamp :: datetime

record database =
  code_collection :: "code_doc list"
  attendance_collection :: "attend_doc list"

text \<open>
  The store keeps a datetime as a number of milliseconds: what it holds, and gives
  back, is the datetime written with its microseconds rounded down to a multiple of
  1000.
\<close>

definition bson_datetime :: "datetime \<Rightarrow> datetime" where
  "bson_datetime dt = (dt div 1000) * 1000"

definition store_code_doc :: "code_doc \<Rightarrow> code_doc" where
  "store_code_doc d =
     d\<lparr>created_at := bson_datetime (created_at d), valid_until := bson_datetime (valid_until d)\<rparr>"

definition store_attend_doc :: "attend_doc \<Rightarrow> attend_doc" where
  "store_attend_doc d = d\<lparr>timestamp := bson_datetime (timestamp d)\<rparr>"

text \<open>
  The cursor operations: \<open>find_one\<close> gives the first matching document or \<open>None\<close>,
  \<open>find\<close> is \<open>filter\<close>, \<open>sort(key, 1)\<close> and \<open>sort(key, -1)\<close> order by a time (documents
  with equal keys stay in insertion order), \<open>to_list(length=n)\<close> reads at most \<open>n\<close>
  documents, and \<open>insert_one\<close> appends the document as the store keeps it (\<open>stored\<close> is
  \<open>store_code_doc\<close> or \<open>store_attend_doc\<close>).  The time of a filter travels in
  milliseconds as well; against a stored datetime that makes no difference
  (\<open>bson_datetime_filter\<close> below), so the filters compare with the time itself.
\<close>

definition find_one :: "('a \<Rightarrow> bool) \<Rightarrow> 'a list \<Rightarrow> 'a option" where
  "find_one q coll = List.find q coll"

definition sort_asc :: "('a \<Rightarrow> datetime) \<Rightarrow> 'a list \<Rightarrow> 'a list" where
  "sort_asc key docs = sort_key key docs"

definition sort_desc :: "('a \<Rightarrow> datetime) \<Rightarrow> 'a list \<Rightarrow> 'a list" where
  "sort_desc key docs = sort_key (\<lambda>d. - key d) docs"

definition to_list :: "nat \<Rightarrow> 'a list \<Rightarrow> 'a list" where
  "to_list n docs = take n docs"

definition insert_one :: "('a \<Rightarrow> 'a) \<Rightarrow> 'a \<Rightarrow> 'a list \<Rightarrow> 'a list" where
  "insert_one stored doc coll = coll @ [stored doc]"

subsection \<open>Active sessions\<close>

record session_entry =
  entry_session_date :: string
  end_str :: string

text \<open>
  The loop of \<open>get_active_sessions\<close> over the codes read, with its two
  accumulators.  \<open>strftime\<close> stands for \<open>valid_until.strftime("%m/%d %H:%M")\<close>.
\<close>

fun sessions_loop ::
  "(datetime \<Rightarrow> string) \<Rightarrow> code_doc list \<Rightarrow> session_entry list \<Rightarrow> string set
     \<Rightarrow> session_entry list" where
  "sessions_loop strftime [] sessions seen_dates = sessions"
| "sessions_loop strftime (c # codes) sessions seen_dates =
     (let sd = code_session_date c
      in if sd \<in> seen_dates then sessions_loop strftime codes sessions seen_dates
         else sessions_loop strftime codes
                (sessions @ [\<lparr>entry_session_date = sd, end_str = strftime (valid_until c)\<rparr>])
                (insert sd seen_dates))"

definition get_active_sessions ::
  "(datetime \<Rightarrow> string) \<Rightarrow> datetime \<Rightarrow> database \<Rightarrow> session_entry list" where
  "get_active_sessions strftime now db =
     (let codes = to_list 100 (sort_asc valid_until
                    (filter (\<lambda>c. now < valid_until c) (code_collection db)))
      in sessions_loop strftime codes [] {})"

subsection \<open>POST /student/attend\<close>

definition RESULT_INVALID :: unicode where
  "RESULT_INVALID = [52636, 49437, 32, 53076, 46300, 44032, 32, 50976, 54952, 54616,
     51648, 32, 50506, 44144, 45208, 32, 49884, 44036, 51060, 32, 47564, 47308, 46104,
     50632, 49845, 45768, 45796, 46]"

definition RESULT_DUPLICATE :: unicode where
  "RESULT_DUPLICATE = [51060, 48120, 32, 52636, 49437, 51060, 32, 52376, 47532, 46104,
     50632, 49845, 45768, 45796, 46]"

definition RESULT_OK :: unicode where
  "RESULT_OK = [52636, 49437, 51060, 32, 51221, 49345, 51201, 51004, 47196, 32, 52376,
     47532, 46104, 50632, 49845, 45768, 45796, 46]"

text \<open>The template context of \<open>student.html\<close> after a submission.\<close>

record student_context =
  ctx_result :: unicode
  ctx_ip_status_message :: unicode
  ctx_sessions :: "session_entry list"

text \<open>
  \<open>now\<close> is the clock reading of the handler, \<open>now2\<close> the later one that
  \<open>get_active_sessions\<close> makes for the refreshed list.
\<close>

definition student_attend ::
  "(datetime \<Rightarrow> string) \<Rightarrow> request \<Rightarrow> string \<Rightarrow> string \<Rightarrow> string \<Rightarrow> datetime \<Rightarrow> datetime
     \<Rightarrow> database \<Rightarrow> py_error + student_context \<times> database" where
  "student_attend strftime req name sdate acode now now2 db =
     (case get_client_ip req of
        Inl e \<Rightarrow> Inl e
      | Inr client_ip \<Rightarrow>
          (let (status, message) = classify_ip client_ip;
               code_found = find_one
                 (\<lambda>c. code_session_date c = sdate \<and> code_attendance_code c = acode
                       \<and> now < valid_until c)
                 (code_collection db);
               (res, db') =
                 (if code_found = None then (RESULT_INVALID, db)
                  else
                    (let existing = find_one
                           (\<lambda>a. session_date a = sdate \<and> attendance_code a = acode
                                 \<and> student_name a = name)
                           (attendance_collection db)
                     in if existing \<noteq> None then (RESULT_DUPLICATE, db)
                        else
                          (let attend = \<lparr>student_name = name, session_date = sdate,
                                 attendance_code = acode, ip = client_ip, ip_status = status,
                                 ip_status_message = message, timestamp = now\<rparr>
                           in (RESULT_OK,
                               db\<lparr>attendance_collection :=
                                    insert_one store_attend_doc attend
                                      (attendance_collection db)\<rparr>))));
               sessions = get_active_sessions strftime now2 db'
           in Inr (\<lparr>ctx_result = res, ctx_ip_status_message = message,
                     ctx_sessions = sessions\<rparr>, db')))"

subsection \<open>GET /teacher\<close>

record teacher_context =
  active_codes :: "code_doc list"
  past_codes :: "code_doc list"

definition teacher_page :: "datetime \<Rightarrow> database \<Rightarrow> teacher_context" where
  "teacher_page now db =
     \<lparr>active_codes = to_list 20 (sort_asc valid_until
                        (filter (\<lambda>c. now < valid_until c) (code_collection db))),
      past_codes = to_list 30 (sort_desc valid_until
                        (filter (\<lambda>c. valid_until c \<le> now) (code_collection db)))\<rparr>"

subsection \<open>POST /teacher/create-code\<close>

record redirect_response =
  url :: string
  status_code :: nat

text \<open>
  \<open>new_id\<close> is the \<open>_id\<close> that \<open>insert_one\<close> gives the new document.
\<close>

definition create_code ::
  "(nat \<Rightarrow> 32 word) \<Rightarrow> object_id \<Rightarrow> string \<Rightarrow> int \<Rightarrow> datetime \<Rightarrow> database
     \<Rightarrow> py_error + redirect_response \<times> database" where
  "create_code rng new_id sdate minutes_valid now db =
     (case generate_code rng 6 of
        Inl e \<Rightarrow> Inl e
      | Inr code \<Rightarrow>
          (case timedelta_minutes minutes_valid of
             Inl e \<Rightarrow> Inl e
           | Inr delta \<Rightarrow>
               (case datetime_add now delta of
                  Inl e \<Rightarrow> Inl e
                | Inr until \<Rightarrow>
                    (let doc = \<lparr>code_id = new_id, code_session_date = sdate,
                           code_attendance_code = code, created_at = now,
                           valid_until = until\<rparr>
                     in Inr (\<lparr>url = ''/teacher'', status_code = 303\<rparr>,
                             db\<lparr>code_collection :=
                                  insert_one store_code_doc doc (code_collection db)\<rparr>)))))"

subsection \<open>GET /teacher/code/\{code_id\}\<close>

definition DETAIL_BAD_ID :: unicode where
  "DETAIL_BAD_ID = [51096, 47803, 46108, 32, 53076, 46300, 32, 73, 68, 32, 51077, 45768,
     45796, 46]"

definition DETAIL_NOT_FOUND :: unicode where
  "DETAIL_NOT_FOUND = [52636, 49437, 32, 53076, 46300, 32, 51221, 48372, 47484, 32,
     52286, 51012, 32, 49688, 32, 50630, 49845, 45768, 45796, 46]"

datatype http_exception = HTTPException nat unicode

record detail_context =
  ctx_code :: code_doc
  is_active :: bool
  attendance_list :: "attend_doc list"
  suspicious_list :: "attend_doc list"

text \<open>
  \<open>ObjectId\<close> stands for the constructor of \<open>bson.ObjectId\<close> on a string: \<open>None\<close>
  where it raises.
\<close>

definition teacher_code_detail ::
  "(string \<Rightarrow> object_id option) \<Rightarrow> string \<Rightarrow> datetime \<Rightarrow> database
     \<Rightarrow> http_exception + detail_context" where
  "teacher_code_detail ObjectId cid now db =
     (case ObjectId cid of
        None \<Rightarrow> Inl (HTTPException 404 DETAIL_BAD_ID)
      | Some oid \<Rightarrow>
          (case find_one (\<lambda>c. code_id c = oid) (code_collection db) of
             None \<Rightarrow> Inl (HTTPException 404 DETAIL_NOT_FOUND)
           | Some cd \<Rightarrow>
               Inr \<lparr>ctx_code = cd,
                    is_active = (now < valid_until cd),
                    attendance_list = to_list 500 (sort_desc timestamp
                      (filter (\<lambda>a. session_date a = code_session_date cd
                                    \<and> attendance_code a = code_attendance_code cd)
                         (attendance_collection db))),
                    suspicious_list = to_list 500 (sort_desc timestamp
                      (filter (\<lambda>a. session_date a = code_session_date cd
                                    \<and> attendance_code a = code_attendance_code cd
                                    \<and> ip_status a \<noteq> ''NORMAL'')
                         (attendance_collection db)))\<rparr>))"

section \<open>A class session\<close>

text \<open>
  The data of one session, used to run the handlers: a code created at \<open>T0\<close>
  (2024-03-01 09:00) for ten minutes, a second code for the same date created three
  minutes later, Alice's submissions from a campus address, and the states of the
  database between them.
\<close>

definition T0 :: datetime where
  "T0 = 63844880400000000"

definition demo_code :: code_doc where
  "demo_code = \<lparr>code_id = 1, code_session_date = ''2024-03-01'',
     code_attendance_code = ''048213'', created_at = T0,
     valid_until = T0 + 10 * US_PER_MINUTE\<rparr>"

definition regen_code :: code_doc where
  "regen_code = \<lparr>code_id = 2, code_session_date = ''2024-03-01'',
     code_attendance_code = ''771905'', created_at = T0 + 3 * US_PER_MINUTE,
     valid_until = T0 + 13 * US_PER_MINUTE\<rparr>"

definition alice_doc :: "string \<Rightarrow> datetime \<Rightarrow> attend_doc" where
  "alice_doc ac t = \<lparr>student_name = ''Alice'', session_date = ''2024-03-01'',
     attendance_code = ac, ip = ''210.108.18.50'', ip_status = ''NORMAL'',
     ip_status_message = MSG_NORMAL, timestamp = t\<rparr>"

definition demo_db :: database where
  "demo_db = \<lparr>code_collection = [demo_code], attendance_collection = []\<rparr>"

definition alice_db :: database where
  "alice_db = \<lparr>code_collection = [demo_code],
     attendance_collection = [alice_doc ''048213'' (T0 + US_PER_MINUTE)]\<rparr>"

definition regen_db :: database where
  "regen_db = \<lparr>code_collection = [demo_code, regen_code],
     attendance_collection = [alice_doc ''048213'' (T0 + US_PER_MINUTE)]\<rparr>"

definition regen_db2 :: database where
  "regen_db2 = \<lparr>code_collection = [demo_code, regen_code],
     attendance_collection = [alice_doc ''048213'' (T0 + US_PER_MINUTE),
                              alice_doc ''771905'' (T0 + 4 * US_PER_MINUTE)]\<rparr>"

definition alice_request :: request where
  "alice_request = \<lparr>x_forwarded_for = Some ''210.108.18.50 , 10.0.0.1'',
     client = Some \<lparr>host = Some ''10.0.0.1'', port = 443\<rparr>\<rparr>"

text \<open>What \<open>strftime("%m/%d %H:%M")\<close> prints for the two expiry times of the session.\<close>

definition clock_label :: "datetime \<Rightarrow> string" where
  "clock_label t =
     (if t = T0 + 10 * US_PER_MINUTE then ''03/01 09:10''
      else if t = T0 + 13 * US_PER_MINUTE then ''03/01 09:13''
      else [])"

text \<open>A request without the header, from a server that passes no peer address.\<close>

definition socket_request :: request where
  "socket_request = \<lparr>x_forwarded_for = None, client = None\<rparr>"

text \<open>A generator that gives the word \<open>0x80000000\<close> every time.\<close>

definition word_rng :: "nat \<Rightarrow> 32 word" where
  "word_rng i = 2147483648"

text \<open>
  A busy day: 101 codes with different session dates, created one millisecond after
  the other during the minute before \<open>T0\<close>, each for ten minutes, so that all are
  active at \<open>T0\<close>.
\<close>

definition busy_code :: "nat \<Rightarrow> code_doc" where
  "busy_code i = \<lparr>code_id = i, code_session_date = replicate (Suc i) CHR ''x'',
     code_attendance_code = ''000000'', created_at = T0 - US_PER_MINUTE + 1000 * int i,
     valid_until = T0 + 9 * US_PER_MINUTE + 1000 * int i\<rparr>"

definition busy_db :: database where
  "busy_db = \<lparr>code_collection = map busy_code [0..<101], attendance_collection = []\<rparr>"

text \<open>
  The review of the first code: its identifier as the route gets it, a record from the
  development machine and one from outside the campus; and a crowd of 501 students
  recorded under that code one millisecond after the other from the first minute on.
\<close>

definition demo_ObjectId :: "string \<Rightarrow> object_id option" where
  "demo_ObjectId s = (if s = ''65e1a2b30000000000000001'' then Some 1 else None)"

definition dana_doc :: attend_doc where
  "dana_doc = \<lparr>student_name = ''Dana'', session_date = ''2024-03-01'',
     attendance_code = ''048213'', ip = ''127.0.0.1'', ip_status = ''DEV'',
     ip_status_message = MSG_DEV, timestamp = T0 + 2 * US_PER_MINUTE\<rparr>"

definition bob_doc :: attend_doc where
  "bob_doc = \<lparr>student_name = ''Bob'', session_date = ''2024-03-01'',
     attendance_code = ''048213'', ip = ''8.8.8.8'', ip_status = ''SUSPICIOUS'',
     ip_status_message = MSG_SUSPICIOUS, timestamp = T0 + 3 * US_PER_MINUTE\<rparr>"

definition review_db :: database where
  "review_db = \<lparr>code_collection = [demo_code],
     attendance_collection = [alice_doc ''048213'' (T0 + US_PER_MINUTE), dana_doc, bob_doc]\<rparr>"

definition crowd_doc :: "nat \<Rightarrow> attend_doc" where
  "crowd_doc i = \<lparr>student_name = replicate (Suc i) CHR ''a'', session_date = ''2024-03-01'',
     attendance_code = ''048213'', ip = ''210.108.18.50'', ip_status = ''NORMAL'',
     ip_status_message = MSG_NORMAL, timestamp = T0 + US_PER_MINUTE + 1000 * int i\<rparr>"

definition crowd_db :: database where
  "crowd_db = \<lparr>code_collection = [demo_code],
     attendance_collection = map crowd_doc [0..<501]\<rparr>"

section \<open>Properties\<close>

subsection \<open>String methods\<close>

lemma startswith_prefix: "startswith s p \<longleftrightarrow> prefix p s"
  unfolding startswith_def
  by (metis prefix_def append_eq_conv_conj)

text \<open>
  C4: \<open>classify_ip\<close> is defined on every string and its status follows four rules
  in order: \<open>DEV\<close> for a string that starts with \<open>127.\<close> or is \<open>::1\<close>; else \<open>NORMAL\<close> for
  one that starts with the campus prefix \<open>210.108.18.\<close>; else \<open>WARNING\<close> for one that
  starts with \<open>10.\<close> or \<open>192.168.\<close>; else \<open>SUSPICIOUS\<close>.
\<close>

theorem classify_ip_rules:
  "fst (classify_ip a) =
     (if prefix ''127.'' a \<or> a = ''::1'' then ''DEV''
      else if prefix ''210.108.18.'' a then ''NORMAL''
      else if prefix ''10.'' a \<or> prefix ''192.168.'' a then ''WARNING''
      else ''SUSPICIOUS'')"
  by (simp add: classify_ip_def CAMPUS_PREFIXES_def startswith_prefix)

theorem classify_ip_rules_witness:
  "fst (classify_ip ''192.168.0.7'') = ''WARNING''"
  using classify_ip_rules [of "''192.168.0.7''"] by simp

subsection \<open>Stored datetimes\<close>

lemma bson_datetime_stored: "bson_datetime (bson_datetime dt) = bson_datetime dt"
  by (simp add: bson_datetime_def)

lemma bson_datetime_le: "bson_datetime dt \<le> dt"
  by (simp add: bson_datetime_def)

text \<open>
  A filter compares a stored datetime with the time in milliseconds; for a stored
  datetime that is the comparison with the time itself.
\<close>

lemma bson_datetime_filter:
  assumes "bson_datetime v = v"
  shows "bson_datetime now < v \<longleftrightarrow> now < v"
proof -
  define a where "a = now div 1000"
  define j where "j = v div 1000"
  have v: "v = j * 1000"
    using assms by (simp add: bson_datetime_def j_def)
  have "now = a * 1000 + now mod 1000"
    unfolding a_def by simp
  moreover have "0 \<le> now mod 1000" and "now mod 1000 < 1000"
    by simp_all
  ultimately have lo: "a * 1000 \<le> now" and hi: "now < a * 1000 + 1000"
    by linarith+
  have "a * 1000 < j * 1000 \<longleftrightarrow> now < j * 1000"
  proof
    assume "a * 1000 < j * 1000"
    then have "a + 1 \<le> j" by simp
    then have "a * 1000 + 1000 \<le> j * 1000" by simp
    with hi show "now < j * 1000" by linarith
  next
    assume "now < j * 1000"
    with lo show "a * 1000 < j * 1000" by linarith
  qed
  then show ?thesis
    by (simp only: bson_datetime_def v a_def)
qed

subsection \<open>Submitting attendance\<close>

lemma find_one_None: "find_one q coll = None \<longleftrightarrow> \<not> (\<exists>d \<in> set coll. q d)"
  by (auto simp add: find_one_def find_None_iff)

lemma alice_ip: "get_client_ip alice_request = Inr ''210.108.18.50''"
  by (simp add: get_client_ip_def alice_request_def first_item_def strip_def isspace_def)

lemma alice_class: "classify_ip ''210.108.18.50'' = (''NORMAL'', MSG_NORMAL)"
  by (simp add: classify_ip_def startswith_def CAMPUS_PREFIXES_def)

lemma results_distinct:
  "RESULT_OK \<noteq> RESULT_INVALID" "RESULT_OK \<noteq> RESULT_DUPLICATE" "RESULT_INVALID \<noteq> RESULT_DUPLICATE"
  by (simp_all add: RESULT_OK_def RESULT_INVALID_def RESULT_DUPLICATE_def)

text \<open>
  The handler derives the client address first: when \<open>get_client_ip\<close> raises, nothing
  is looked up and nothing is written.
\<close>

lemma student_attend_raises:
  "get_client_ip req = Inl e \<Longrightarrow> student_attend fmt req n sd ac now now2 db = Inl e"
  by (simp add: student_attend_def)

lemma socket_request_raises:
  "student_attend fmt socket_request n sd ac now now2 db = Inl AttributeError"
  by (rule student_attend_raises) (simp add: get_client_ip_def socket_request_def)

text \<open>
  What \<open>student_attend\<close> returns once the client address is known, by whether an
  active code matches and whether the student already holds a record.  The record it
  writes is kept with its timestamp in milliseconds.
\<close>

lemma student_attend_cases:
  assumes "get_client_ip req = Inr cip"
    and "active = (\<exists>c \<in> set (code_collection db).
            code_session_date c = sd \<and> code_attendance_code c = ac \<and> now < valid_until c)"
    and "held = (\<exists>r \<in> set (attendance_collection db).
            student_name r = n \<and> session_date r = sd \<and> attendance_code r = ac)"
  shows "student_attend fmt req n sd ac now now2 db =
     (let res = (if \<not> active then RESULT_INVALID else if held then RESULT_DUPLICATE
                 else RESULT_OK);
          db' = (if active \<and> \<not> held
                 then db\<lparr>attendance_collection := attendance_collection db @
                   [\<lparr>student_name = n, session_date = sd, attendance_code = ac, ip = cip,
                     ip_status = fst (classify_ip cip),
                     ip_status_message = snd (classify_ip cip),
                     timestamp = bson_datetime now\<rparr>]\<rparr>
                 else db)
      in Inr (\<lparr>ctx_result = res, ctx_ip_status_message = snd (classify_ip cip),
                ctx_sessions = get_active_sessions fmt now2 db'\<rparr>, db'))"
proof -
  have c: "find_one (\<lambda>c. code_session_date c = sd \<and> code_attendance_code c = ac
             \<and> now < valid_until c) (code_collection db) = None \<longleftrightarrow> \<not> active"
    unfolding assms(2) by (rule find_one_None)
  have e: "find_one (\<lambda>a. session_date a = sd \<and> attendance_code a = ac \<and> student_name a = n)
             (attendance_collection db) = None \<longleftrightarrow> \<not> held"
    unfolding assms(3) by (auto simp add: find_one_None)
  show ?thesis
    unfolding student_attend_def Let_def split_beta c e
    by (simp add: assms(1) insert_one_def store_attend_doc_def)
qed

text \<open>
  For a request whose client address is derived: with an active matching code and no
  record for the name, the date and the code, the submission is recorded, and exactly
  one record is appended.
\<close>

lemma student_attend_recorded:
  assumes "get_client_ip req = Inr cip"
    and "\<exists>c \<in> set (code_collection db).
           code_session_date c = sd \<and> code_attendance_code c = ac \<and> now < valid_until c"
    and "\<not> (\<exists>r \<in> set (attendance_collection db).
           student_name r = n \<and> session_date r = sd \<and> attendance_code r = ac)"
  shows "student_attend fmt req n sd ac now now2 db =
     (let db' = db\<lparr>attendance_collection := attendance_collection db @
                  [\<lparr>student_name = n, session_date = sd, attendance_code = ac, ip = cip,
                    ip_status = fst (classify_ip cip),
                    ip_status_message = snd (classify_ip cip),
                    timestamp = bson_datetime now\<rparr>]\<rparr>
      in Inr (\<lparr>ctx_result = RESULT_OK, ctx_ip_status_message = snd (classify_ip cip),
                ctx_sessions = get_active_sessions fmt now2 db'\<rparr>, db'))"
proof -
  have a: "True = (\<exists>c \<in> set (code_collection db).
      code_session_date c = sd \<and> code_attendance_code c = ac \<and> now < valid_until c)"
    using assms(2) by simp
  have h: "False = (\<exists>r \<in> set (attendance_collection db).
      student_name r = n \<and> session_date r = sd \<and> attendance_code r = ac)"
    using assms(3) by simp
  show ?thesis
    by (simp add: student_attend_cases [OF assms(1) a h])
qed

text \<open>Alice, 250 microseconds into the second minute: the record is kept at the minute.\<close>

lemma student_attend_recorded_example:
  "student_attend clock_label alice_request ''Alice'' ''2024-03-01'' ''048213''
       (T0 + US_PER_MINUTE + 250) (T0 + 2 * US_PER_MINUTE) demo_db =
     Inr (\<lparr>ctx_result = RESULT_OK, ctx_ip_status_message = MSG_NORMAL,
            ctx_sessions = [\<lparr>entry_session_date = ''2024-03-01'', end_str = ''03/01 09:10''\<rparr>]\<rparr>,
          alice_db)"
proof -
  have active: "\<exists>c \<in> set (code_collection demo_db). code_session_date c = ''2024-03-01''
      \<and> code_attendance_code c = ''048213'' \<and> T0 + US_PER_MINUTE + 250 < valid_until c"
    by (simp add: demo_db_def demo_code_def US_PER_MINUTE_def)
  have fresh: "\<not> (\<exists>r \<in> set (attendance_collection demo_db). student_name r = ''Alice''
      \<and> session_date r = ''2024-03-01'' \<and> attendance_code r = ''048213'')"
    by (simp add: demo_db_def)
  show ?thesis
    using student_attend_recorded [OF alice_ip active fresh, of clock_label "T0 + 2 * US_PER_MINUTE"]
    by (simp add: alice_class demo_db_def alice_db_def alice_doc_def demo_code_def
        US_PER_MINUTE_def get_active_sessions_def to_list_def sort_asc_def clock_label_def
        bson_datetime_def T0_def)
qed

text \<open>
  C1: a submission with an active matching code and no record for the student is to be
  recorded.  \<open>student_attend\<close> does so for every request whose client address it can
  derive (\<open>student_attend_recorded\<close>).  For the request without the header and without
  a peer address it raises instead, and records nothing, although the code of the
  session is active and the student has no record.
\<close>

theorem student_attend_recorded_no_client:
  "demo_code \<in> set (code_collection demo_db)
   \<and> code_session_date demo_code = ''2024-03-01''
   \<and> code_attendance_code demo_code = ''048213''
   \<and> T0 + US_PER_MINUTE < valid_until demo_code
   \<and> attendance_collection demo_db = []
   \<and> student_attend clock_label socket_request ''Alice'' ''2024-03-01'' ''048213''
        (T0 + US_PER_MINUTE) (T0 + 2 * US_PER_MINUTE) demo_db = Inl AttributeError"
  by (simp add: socket_request_raises demo_db_def demo_code_def US_PER_MINUTE_def)

text \<open>
  For a request whose client address is derived: with no active matching code the
  answer is that the code is invalid or expired and the database stays as it is,
  whatever the attendance records are.
\<close>

lemma student_attend_invalid:
  assumes "get_client_ip req = Inr cip"
    and "\<not> (\<exists>c \<in> set (code_collection db).
           code_session_date c = sd \<and> code_attendance_code c = ac \<and> now < valid_until c)"
  shows "student_attend fmt req n sd ac now now2 db =
     Inr (\<lparr>ctx_result = RESULT_INVALID, ctx_ip_status_message = snd (classify_ip cip),
            ctx_sessions = get_active_sessions fmt now2 db\<rparr>, db)"
proof -
  have a: "False = (\<exists>c \<in> set (code_collection db).
      code_session_date c = sd \<and> code_attendance_code c = ac \<and> now < valid_until c)"
    using assms(2) by simp
  show ?thesis
    by (simp add: student_attend_cases [OF assms(1) a refl])
qed

lemma student_attend_invalid_example:
  "student_attend clock_label alice_request ''Alice'' ''2024-03-01'' ''048213''
       (T0 + 15 * US_PER_MINUTE) (T0 + 16 * US_PER_MINUTE) alice_db =
     Inr (\<lparr>ctx_result = RESULT_INVALID, ctx_ip_status_message = MSG_NORMAL,
            ctx_sessions = []\<rparr>, alice_db)"
proof -
  have expired: "\<not> (\<exists>c \<in> set (code_collection alice_db). code_session_date c = ''2024-03-01''
      \<and> code_attendance_code c = ''048213'' \<and> T0 + 15 * US_PER_MINUTE < valid_until c)"
    by (simp add: alice_db_def demo_code_def US_PER_MINUTE_def)
  show ?thesis
    using student_attend_invalid [OF alice_ip expired, of clock_label "''Alice''" "T0 + 16 * US_PER_MINUTE"]
    by (simp add: alice_class alice_db_def demo_code_def
        US_PER_MINUTE_def get_active_sessions_def to_list_def sort_asc_def)
qed

text \<open>
  C2: a submission with no active matching code is to be answered as invalid or
  expired.  \<open>student_attend\<close> does so for every request whose client address it can
  derive (\<open>student_attend_invalid\<close>).  For the request without the header and without
  a peer address it raises instead, before the code is looked up: here Bob submits
  after the only code has expired.
\<close>

theorem student_attend_invalid_no_client:
  "code_collection alice_db = [demo_code]
   \<and> \<not> T0 + 15 * US_PER_MINUTE < valid_until demo_code
   \<and> student_attend clock_label socket_request ''Bob'' ''2024-03-01'' ''048213''
        (T0 + 15 * US_PER_MINUTE) (T0 + 16 * US_PER_MINUTE) alice_db = Inl AttributeError"
  by (simp add: socket_request_raises alice_db_def demo_code_def US_PER_MINUTE_def)

text \<open>
  For a request whose client address is derived: with an active matching code and a
  record for the name, the date and the code, the answer is that attendance was
  already recorded and the database stays as it is.
\<close>

lemma student_attend_duplicate:
  assumes "get_client_ip req = Inr cip"
    and "\<exists>c \<in> set (code_collection db).
           code_session_date c = sd \<and> code_attendance_code c = ac \<and> now < valid_until c"
    and "\<exists>r \<in> set (attendance_collection db).
           student_name r = n \<and> session_date r = sd \<and> attendance_code r = ac"
  shows "student_attend fmt req n sd ac now now2 db =
     Inr (\<lparr>ctx_result = RESULT_DUPLICATE, ctx_ip_status_message = snd (classify_ip cip),
            ctx_sessions = get_active_sessions fmt now2 db\<rparr>, db)"
proof -
  have a: "True = (\<exists>c \<in> set (code_collection db).
      code_session_date c = sd \<and> code_attendance_code c = ac \<and> now < valid_until c)"
    using assms(2) by simp
  have h: "True = (\<exists>r \<in> set (attendance_collection db).
      student_name r = n \<and> session_date r = sd \<and> attendance_code r = ac)"
    using assms(3) by simp
  show ?thesis
    by (simp add: student_attend_cases [OF assms(1) a h])
qed

lemma student_attend_duplicate_example:
  "student_attend clock_label alice_request ''Alice'' ''2024-03-01'' ''048213''
       (T0 + 2 * US_PER_MINUTE) (T0 + 3 * US_PER_MINUTE) alice_db =
     Inr (\<lparr>ctx_result = RESULT_DUPLICATE, ctx_ip_status_message = MSG_NORMAL,
            ctx_sessions = [\<lparr>entry_session_date = ''2024-03-01'', end_str = ''03/01 09:10''\<rparr>]\<rparr>,
          alice_db)"
proof -
  have active: "\<exists>c \<in> set (code_collection alice_db). code_session_date c = ''2024-03-01''
      \<and> code_attendance_code c = ''048213'' \<and> T0 + 2 * US_PER_MINUTE < valid_until c"
    by (simp add: alice_db_def demo_code_def US_PER_MINUTE_def)
  have held: "\<exists>r \<in> set (attendance_collection alice_db). student_name r = ''Alice''
      \<and> session_date r = ''2024-03-01'' \<and> attendance_code r = ''048213''"
    by (simp add: alice_db_def alice_doc_def)
  show ?thesis
    using student_attend_duplicate [OF alice_ip active held, of clock_label "T0 + 3 * US_PER_MINUTE"]
    by (simp add: alice_class alice_db_def demo_code_def
        US_PER_MINUTE_def get_active_sessions_def to_list_def sort_asc_def clock_label_def)
qed

text \<open>
  C3: a second submission of the same name, date and active code is to be answered as
  already recorded.  \<open>student_attend\<close> does so for every request whose client address
  it can derive (\<open>student_attend_duplicate\<close>).  For the request without the header and
  without a peer address it raises instead: here Alice, already recorded, submits the
  active code again.
\<close>

theorem student_attend_duplicate_no_client:
  "demo_code \<in> set (code_collection alice_db)
   \<and> T0 + 2 * US_PER_MINUTE < valid_until demo_code
   \<and> alice_doc ''048213'' (T0 + US_PER_MINUTE) \<in> set (attendance_collection alice_db)
   \<and> student_attend clock_label socket_request ''Alice'' ''2024-03-01'' ''048213''
        (T0 + 2 * US_PER_MINUTE) (T0 + 3 * US_PER_MINUTE) alice_db = Inl AttributeError"
  by (simp add: socket_request_raises alice_db_def demo_code_def US_PER_MINUTE_def)

text \<open>
  C10 as stated fails when the student holds a record under the second code as well:
  Alice holds records under both codes of the date, both codes are active, and her
  submission of the second code is answered as a duplicate.
\<close>

theorem regenerated_code_counterexample:
  "alice_doc ''048213'' (T0 + US_PER_MINUTE) \<in> set (attendance_collection regen_db2)
   \<and> demo_code \<in> set (code_collection regen_db2)
   \<and> regen_code \<in> set (code_collection regen_db2)
   \<and> code_session_date demo_code = code_session_date regen_code
   \<and> code_attendance_code demo_code \<noteq> code_attendance_code regen_code
   \<and> T0 + 5 * US_PER_MINUTE < valid_until demo_code
   \<and> T0 + 5 * US_PER_MINUTE < valid_until regen_code
   \<and> student_attend clock_label alice_request ''Alice'' (code_session_date regen_code)
        (code_attendance_code regen_code) (T0 + 5 * US_PER_MINUTE) (T0 + 6 * US_PER_MINUTE)
        regen_db2 =
      Inr (\<lparr>ctx_result = RESULT_DUPLICATE, ctx_ip_status_message = MSG_NORMAL,
            ctx_sessions = [\<lparr>entry_session_date = ''2024-03-01'', end_str = ''03/01 09:10''\<rparr>]\<rparr>,
           regen_db2)
   \<and> RESULT_DUPLICATE \<noteq> RESULT_OK"
  by (simp add: student_attend_cases [OF alice_ip refl refl] alice_class regen_db2_def demo_code_def
      regen_code_def alice_doc_def US_PER_MINUTE_def get_active_sessions_def to_list_def
      sort_asc_def clock_label_def T0_def RESULT_DUPLICATE_def RESULT_OK_def)

text \<open>
  C10, amended: a student who holds a record \<open>r\<close> under code \<open>c1\<close> for a session
  date, and none under \<open>c2\<close>, submits the active code \<open>c2\<close> for that date in a
  request whose client address is derived: the submission is recorded, \<open>c1\<close> and \<open>c2\<close>
  differ, and afterwards the student holds two different records for the date, \<open>r\<close>
  and the new one.
\<close>

theorem regenerated_code_second_record:
  assumes "get_client_ip req = Inr cip"
    and "r \<in> set (attendance_collection db)"
    and "student_name r = n" and "session_date r = sd" and "attendance_code r = c1"
    and "\<exists>c \<in> set (code_collection db).
           code_session_date c = sd \<and> code_attendance_code c = c2 \<and> now < valid_until c"
    and "\<not> (\<exists>r \<in> set (attendance_collection db).
           student_name r = n \<and> session_date r = sd \<and> attendance_code r = c2)"
  shows "let new = \<lparr>student_name = n, session_date = sd, attendance_code = c2, ip = cip,
                    ip_status = fst (classify_ip cip),
                    ip_status_message = snd (classify_ip cip),
                    timestamp = bson_datetime now\<rparr>;
             db' = db\<lparr>attendance_collection := attendance_collection db @ [new]\<rparr>
         in student_attend fmt req n sd c2 now now2 db =
              Inr (\<lparr>ctx_result = RESULT_OK, ctx_ip_status_message = snd (classify_ip cip),
                     ctx_sessions = get_active_sessions fmt now2 db'\<rparr>, db')
            \<and> c1 \<noteq> c2
            \<and> r \<in> set (attendance_collection db') \<and> new \<in> set (attendance_collection db')
            \<and> r \<noteq> new"
proof -
  have d: "c1 \<noteq> c2" using assms(2-5,7) by auto
  have a: "True = (\<exists>c \<in> set (code_collection db).
      code_session_date c = sd \<and> code_attendance_code c = c2 \<and> now < valid_until c)"
    using assms(6) by simp
  have h: "False = (\<exists>r \<in> set (attendance_collection db).
      student_name r = n \<and> session_date r = sd \<and> attendance_code r = c2)"
    using assms(7) by simp
  have "r \<noteq> \<lparr>student_name = n, session_date = sd, attendance_code = c2, ip = cip,
                    ip_status = fst (classify_ip cip),
                    ip_status_message = snd (classify_ip cip),
                    timestamp = bson_datetime now\<rparr>"
    using d assms(5) by auto
  then show ?thesis
    using d assms(2) by (simp add: student_attend_cases [OF assms(1) a h] Let_def)
qed

theorem regenerated_code_second_record_witness:
  "student_attend clock_label alice_request ''Alice'' ''2024-03-01'' ''771905''
       (T0 + 4 * US_PER_MINUTE + 250) (T0 + 5 * US_PER_MINUTE) regen_db =
     Inr (\<lparr>ctx_result = RESULT_OK, ctx_ip_status_message = MSG_NORMAL,
            ctx_sessions = [\<lparr>entry_session_date = ''2024-03-01'', end_str = ''03/01 09:10''\<rparr>]\<rparr>,
          regen_db2)"
proof -
  have held: "alice_doc ''048213'' (T0 + US_PER_MINUTE) \<in> set (attendance_collection regen_db)"
    by (simp add: regen_db_def)
  have active: "\<exists>c \<in> set (code_collection regen_db). code_session_date c = ''2024-03-01''
      \<and> code_attendance_code c = ''771905'' \<and> T0 + 4 * US_PER_MINUTE + 250 < valid_until c"
    by (simp add: regen_db_def regen_code_def US_PER_MINUTE_def)
  have fresh: "\<not> (\<exists>r \<in> set (attendance_collection regen_db). student_name r = ''Alice''
      \<and> session_date r = ''2024-03-01'' \<and> attendance_code r = ''771905'')"
    by (simp add: regen_db_def alice_doc_def)
  show ?thesis
    using regenerated_code_second_record [OF alice_ip held refl refl refl _ _,
        of "''771905''" "T0 + 4 * US_PER_MINUTE + 250" clock_label "T0 + 5 * US_PER_MINUTE"]
      active fresh
    by (simp add: bson_datetime_def T0_def alice_class alice_doc_def regen_db_def regen_db2_def Let_def
        demo_code_def regen_code_def US_PER_MINUTE_def get_active_sessions_def to_list_def
        sort_asc_def clock_label_def)
qed

subsection \<open>The client address\<close>

lemma split_first: "\<exists>ps. split sep s = takeWhile (\<lambda>c. c \<noteq> sep) s # ps"
  by (induction s) auto

lemma get_client_ip_forwarded:
  assumes "x_forwarded_for req = Some x" and "x \<noteq> []"
  shows "get_client_ip req = Inr (strip (takeWhile (\<lambda>c. c \<noteq> CHR '','') x))"
proof -
  obtain ps where "split CHR '','' x = takeWhile (\<lambda>c. c \<noteq> CHR '','') x # ps"
    using split_first by blast
  then show ?thesis
    by (simp add: get_client_ip_def assms first_item_def)
qed

lemma get_client_ip_peer:
  assumes "\<not> truthy (x_forwarded_for req)" and "client req = Some a"
  shows "get_client_ip req =
     Inr (case host a of None \<Rightarrow> ''unknown'' | Some h \<Rightarrow> if h = [] then ''unknown'' else h)"
  using assms by (cases "host a") (simp_all add: get_client_ip_def)

text \<open>
  C9: the client address is the first comma-separated entry of a non-empty
  \<open>X-Forwarded-For\<close> header, stripped (\<open>get_client_ip_forwarded\<close>), otherwise the
  peer's host, or \<open>unknown\<close> when the host is empty (\<open>get_client_ip_peer\<close>).  A request
  with neither the header nor a peer address gets no address at all: reading
  \<open>request.client.host\<close> raises.
\<close>

theorem get_client_ip_no_client:
  "get_client_ip socket_request = Inl AttributeError"
  by (simp add: get_client_ip_def socket_request_def)

subsection \<open>Creating a code\<close>

lemma py_index_in_range:
  "0 \<le> i \<Longrightarrow> i < int (length xs) \<Longrightarrow> py_index xs i = Inr (xs ! nat i)"
  by (simp add: py_index_def)

lemma collect_all_Inr: "collect (map (\<lambda>i. Inr (f i)) is) = Inr (map f is)"
  by (induction "is") simp_all

text \<open>The fraction that \<open>random()\<close> returns is below one.\<close>

lemma random_fraction_less: "random_fraction rng i < 2 ^ 53"
proof -
  have "unat (rng (2 * i)) < 2 ^ 32" "unat (rng (2 * i + 1)) < 2 ^ 32"
    using unsigned_less [of "rng (2 * i)"] unsigned_less [of "rng (2 * i + 1)"] by simp_all
  then have "unat (rng (2 * i)) div 2 ^ 5 < 2 ^ 27" "unat (rng (2 * i + 1)) div 2 ^ 6 < 2 ^ 26"
    by simp_all
  then show ?thesis
    by (simp add: random_fraction_def Let_def)
qed

lemma bit_length_le: "m < 2 ^ n \<Longrightarrow> bit_length m \<le> n"
proof (induction n arbitrary: m)
  case 0
  then show ?case by (simp add: bit_length.simps)
next
  case (Suc n)
  show ?case
  proof (cases "m = 0")
    case True
    then show ?thesis by (simp add: bit_length.simps)
  next
    case False
    from Suc.prems have "m div 2 < 2 ^ n" by simp
    then have "bit_length (m div 2) \<le> n" by (rule Suc.IH)
    with False show ?thesis by (subst bit_length.simps) simp
  qed
qed

lemma bit_length_eq: "2 ^ n \<le> m \<Longrightarrow> m < 2 ^ Suc n \<Longrightarrow> bit_length m = Suc n"
proof (induction n arbitrary: m)
  case 0
  then have "m = 1" by simp
  then show ?case by (simp add: bit_length.simps [of "Suc 0"] bit_length.simps [of 0])
next
  case (Suc n)
  from Suc.prems have "2 ^ n \<le> m div 2" and "m div 2 < 2 ^ Suc n" by simp_all
  then have "bit_length (m div 2) = Suc n" by (rule Suc.IH)
  moreover from Suc.prems have "m \<noteq> 0" by auto
  ultimately show ?case by (subst bit_length.simps) simp
qed

text \<open>Rounding moves a number up by half a unit of the last kept bit at most.\<close>

lemma round_half_even_upper:
  assumes "0 < s"
  shows "round_half_even m s * 2 ^ s \<le> m + 2 ^ (s - 1)"
proof -
  obtain t where s: "s = Suc t" using assms by (cases s) auto
  define H :: nat where "H = 2 ^ t"
  define q where "q = m div (2 * H)"
  define r where "r = m mod (2 * H)"
  have m: "m = q * (2 * H) + r"
    unfolding q_def r_def by (rule div_mult_mod_eq [symmetric])
  have rhe: "round_half_even m s = (if H < r \<or> (r = H \<and> odd q) then q + 1 else q)"
    by (simp add: round_half_even_def s H_def q_def r_def Let_def)
  have "round_half_even m s * (2 * H) \<le> m + H"
  proof (cases "H < r \<or> (r = H \<and> odd q)")
    case True
    then have "H \<le> r" by auto
    moreover from True have "round_half_even m s * (2 * H) = q * (2 * H) + 2 * H"
      unfolding rhe by (simp add: algebra_simps)
    ultimately show ?thesis using m by linarith
  next
    case False
    then have "round_half_even m s * (2 * H) = q * (2 * H)"
      by (simp only: rhe if_False)
    then show ?thesis using m by linarith
  qed
  then show ?thesis by (simp add: s H_def)
qed

text \<open>
  With ten items the index drawn is one of 0 to 9, also after the product is rounded:
  the largest product is \<open>10 - 10 / 2^53\<close>, and rounding adds \<open>8 / 2^53\<close> at most.
\<close>

lemma float_times_floor_digit:
  assumes "k < 2 ^ 53"
  shows "0 \<le> float_times_floor k 10" and "float_times_floor k 10 < 10"
proof -
  show "0 \<le> float_times_floor k 10" by (simp add: float_times_floor_def Let_def)
  let ?m = "k * 10"
  let ?s = "bit_length ?m - 53"
  have m: "?m + 10 \<le> 10 * 2 ^ 53" using assms by simp
  then have "?m < 2 ^ 57" by simp
  then have "bit_length ?m \<le> 57" by (rule bit_length_le)
  then have s: "?s \<le> 4" by simp
  have "round_half_even ?m ?s * 2 ^ ?s \<le> ?m + 8"
  proof (cases "?s = 0")
    case True
    then show ?thesis by (simp add: round_half_even_def)
  next
    case False
    then have "round_half_even ?m ?s * 2 ^ ?s \<le> ?m + 2 ^ (?s - 1)"
      by (intro round_half_even_upper) simp
    moreover have "(2::nat) ^ (?s - 1) \<le> 2 ^ 3"
      using s by (intro power_increasing) simp_all
    ultimately show ?thesis by simp
  qed
  with m have "round_half_even ?m ?s * 2 ^ ?s < 10 * 2 ^ 53" by simp
  then have "(round_half_even ?m ?s * 2 ^ ?s) div 2 ^ 53 < 10"
    by (simp add: less_mult_imp_div_less)
  then show "float_times_floor k 10 < 10"
    by (simp add: float_times_floor_def Let_def)
qed

text \<open>
  The rounding is felt: for \<open>random() = 0.6\<close> (the double \<open>5404319552844595 / 2^53\<close>) the
  product is the double \<open>6.0\<close> and the index is 6, where the exact product is below 6.
\<close>

lemma float_times_floor_six_tenths:
  "float_times_floor 5404319552844595 10 = 6"
  "(5404319552844595 * 10) div (2 ^ 53 :: nat) = 5"
proof -
  have "bit_length (5404319552844595 * 10) = Suc 55"
    by (rule bit_length_eq) simp_all
  then show "float_times_floor 5404319552844595 10 = 6"
    by (simp add: float_times_floor_def round_half_even_def Let_def)
  show "(5404319552844595 * 10) div (2 ^ 53 :: nat) = 5" by simp
qed

lemma generate_code_eq:
  "generate_code rng k =
     Inr (map (\<lambda>i. string_digits ! nat (float_times_floor (random_fraction rng i) 10))
            [0..<k])"
proof -
  let ?ix = "\<lambda>i. float_times_floor (random_fraction rng i) 10"
  have len: "length string_digits = 10" by (simp add: string_digits_def)
  have ix: "0 \<le> ?ix i" "?ix i < int (length string_digits)" for i
    unfolding len using float_times_floor_digit [OF random_fraction_less [of rng i]] by simp_all
  have "map (\<lambda>i. py_index string_digits (?ix i)) [0..<k] =
        map (\<lambda>i. Inr (string_digits ! nat (?ix i))) [0..<k]"
    by (intro map_cong refl py_index_in_range ix)
  then show ?thesis
    unfolding generate_code_def choices_def len by (simp only: collect_all_Inr)
qed

lemma generate_code_digits:
  "\<exists>code. generate_code rng k = Inr code \<and> length code = k
     \<and> set code \<subseteq> set ''0123456789''"
proof -
  let ?ix = "\<lambda>i. float_times_floor (random_fraction rng i) 10"
  let ?code = "map (\<lambda>i. string_digits ! nat (?ix i)) [0..<k]"
  have "set ?code \<subseteq> set string_digits"
  proof
    fix ch assume "ch \<in> set ?code"
    then obtain i where ch: "ch = string_digits ! nat (?ix i)" by auto
    have "0 \<le> ?ix i" and "?ix i < 10"
      using float_times_floor_digit [OF random_fraction_less [of rng i]] by simp_all
    then have "nat (?ix i) < length string_digits"
      by (simp add: string_digits_def)
    then show "ch \<in> set string_digits" unfolding ch by (rule nth_mem)
  qed
  then show ?thesis
    unfolding generate_code_eq by (auto simp add: string_digits_def)
qed

lemma word_rng_fraction: "random_fraction word_rng i = 4503599660924928"
  by (simp add: random_fraction_def word_rng_def)

lemma word_rng_index: "float_times_floor 4503599660924928 10 = 5"
proof -
  have "bit_length (4503599660924928 * 10) = Suc 55"
    by (rule bit_length_eq) simp_all
  then show ?thesis
    by (simp add: float_times_floor_def round_half_even_def Let_def)
qed

lemma generate_code_word: "generate_code word_rng 6 = Inr ''555555''"
  by (simp add: generate_code_eq word_rng_fraction word_rng_index string_digits_def
      upt_rec [of _ 6] upt_rec [of _ "Suc _"])

text \<open>
  C7 as stated fails in two ways.  For a validity that leads past the year 9999 (ten
  thousand million minutes) \<open>now + timedelta(minutes=minutes_valid)\<close> raises
  \<open>OverflowError\<close>, and nothing is stored.  And a code created 999 microseconds after
  \<open>T0\<close> is stored with \<open>created_at = T0\<close>, which is not \<open>now\<close>: the store keeps
  milliseconds.
\<close>

theorem create_code_overflow:
  "create_code word_rng 2 ''2024-03-02'' 10000000000 T0 demo_db = Inl OverflowError
   \<and> create_code word_rng 1 ''2024-03-01'' 10 (T0 + 999)
        \<lparr>code_collection = [], attendance_collection = []\<rparr> =
      Inr (\<lparr>url = ''/teacher'', status_code = 303\<rparr>,
           \<lparr>code_collection = [\<lparr>code_id = 1, code_session_date = ''2024-03-01'',
               code_attendance_code = ''555555'', created_at = T0,
               valid_until = T0 + 10 * US_PER_MINUTE\<rparr>],
             attendance_collection = []\<rparr>)
   \<and> T0 \<noteq> T0 + 999"
  by (simp add: create_code_def generate_code_word timedelta_minutes_def datetime_add_def
      insert_one_def store_code_doc_def bson_datetime_def T0_def DATETIME_MAX_def
      US_PER_DAY_def US_PER_MINUTE_def MAX_DELTA_DAYS_def)

text \<open>
  C7, amended: when \<open>now\<close> plus \<open>minutes_valid\<close> minutes is a \<open>datetime\<close>, \<open>create_code\<close>
  appends one document to \<open>codes\<close> whose code has exactly six characters, each a digit,
  with \<open>created_at\<close> equal to \<open>now\<close> and \<open>valid_until\<close> equal to \<open>now\<close> plus \<open>minutes_valid\<close>
  minutes, both in milliseconds as the store keeps them, and redirects to \<open>/teacher\<close>.
\<close>

theorem create_code_persists:
  assumes "0 \<le> now" and "now \<le> DATETIME_MAX"
    and "0 \<le> now + minutes_valid * US_PER_MINUTE"
    and "now + minutes_valid * US_PER_MINUTE \<le> DATETIME_MAX"
  shows "\<exists>code. length code = 6 \<and> set code \<subseteq> set ''0123456789''
     \<and> create_code rng new_id sd minutes_valid now db =
         Inr (\<lparr>url = ''/teacher'', status_code = 303\<rparr>,
              db\<lparr>code_collection := code_collection db @
                [\<lparr>code_id = new_id, code_session_date = sd, code_attendance_code = code,
                  created_at = bson_datetime now,
                  valid_until = bson_datetime (now + minutes_valid * US_PER_MINUTE)\<rparr>]\<rparr>)"
proof -
  from generate_code_digits [of rng 6] obtain code
    where code: "generate_code rng 6 = Inr code" "length code = 6"
      "set code \<subseteq> set ''0123456789''"
    by blast
  have "- DATETIME_MAX \<le> minutes_valid * US_PER_MINUTE"
    and "minutes_valid * US_PER_MINUTE \<le> DATETIME_MAX"
    using assms by linarith+
  then have "- MAX_DELTA_DAYS \<le> (minutes_valid * US_PER_MINUTE) div US_PER_DAY"
    and "(minutes_valid * US_PER_MINUTE) div US_PER_DAY \<le> MAX_DELTA_DAYS"
    unfolding DATETIME_MAX_def US_PER_DAY_def MAX_DELTA_DAYS_def by linarith+
  then have td: "timedelta_minutes minutes_valid = Inr (minutes_valid * US_PER_MINUTE)"
    by (simp add: timedelta_minutes_def Let_def)
  have add: "datetime_add now (minutes_valid * US_PER_MINUTE) =
      Inr (now + minutes_valid * US_PER_MINUTE)"
    using assms(3,4) by (simp add: datetime_add_def)
  show ?thesis
    using code by (auto simp add: create_code_def td add insert_one_def store_code_doc_def)
qed

theorem create_code_persists_witness:
  "\<exists>code. length code = 6 \<and> set code \<subseteq> set ''0123456789''
     \<and> create_code word_rng 1 ''2024-03-01'' 10 (T0 + 999)
          \<lparr>code_collection = [], attendance_collection = []\<rparr> =
         Inr (\<lparr>url = ''/teacher'', status_code = 303\<rparr>,
              \<lparr>code_collection = [\<lparr>code_id = 1, code_session_date = ''2024-03-01'',
                  code_attendance_code = code, created_at = T0,
                  valid_until = T0 + 10 * US_PER_MINUTE\<rparr>],
                attendance_collection = []\<rparr>)"
proof -
  have lo: "0 \<le> T0 + 999" and hi: "T0 + 999 \<le> DATETIME_MAX"
    by (simp_all add: T0_def DATETIME_MAX_def US_PER_DAY_def)
  have lo': "0 \<le> T0 + 999 + 10 * US_PER_MINUTE"
    and hi': "T0 + 999 + 10 * US_PER_MINUTE \<le> DATETIME_MAX"
    by (simp_all add: T0_def DATETIME_MAX_def US_PER_DAY_def US_PER_MINUTE_def)
  show ?thesis
    using create_code_persists [OF lo hi lo' hi', of word_rng 1 "''2024-03-01''"
        "\<lparr>code_collection = [], attendance_collection = []\<rparr>"]
    by (simp add: bson_datetime_def T0_def US_PER_MINUTE_def)
qed

subsection \<open>Reading sorted pages\<close>

lemma to_list_sort_asc_sorted: "sorted (map key (to_list n (sort_asc key docs)))"
proof -
  have "sorted (take n (map key (sort_asc key docs)))"
    by (rule sorted_wrt_take) (simp add: sort_asc_def)
  then show ?thesis
    by (simp add: to_list_def take_map)
qed

lemma to_list_sort_desc_sorted:
  "sorted_wrt (\<lambda>a b. key b \<le> key a) (to_list n (sort_desc key docs))"
proof -
  have "sorted (map (\<lambda>d. - key d) (sort_desc key docs))"
    by (simp add: sort_desc_def)
  then have "sorted_wrt (\<lambda>a b. key b \<le> key a) (sort_desc key docs)"
    by (simp add: sorted_wrt_map)
  then show ?thesis
    by (simp add: to_list_def sorted_wrt_take)
qed

lemma to_list_length:
  "length (to_list n (sort_asc key docs)) = min n (length docs)"
  "length (to_list n (sort_desc key docs)) = min n (length docs)"
  by (simp_all add: to_list_def sort_asc_def sort_desc_def)

lemma to_list_subset:
  "set (to_list n (sort_asc key docs)) \<subseteq> set docs"
  "set (to_list n (sort_desc key docs)) \<subseteq> set docs"
  using set_take_subset [of n "sort_key key docs"]
    set_take_subset [of n "sort_key (\<lambda>d. - key d) docs"]
  by (simp_all add: to_list_def sort_asc_def sort_desc_def)

lemma to_list_rest_asc:
  "\<exists>rest. mset (to_list n (sort_asc key docs) @ rest) = mset docs
     \<and> (\<forall>c \<in> set rest. \<forall>d \<in> set (to_list n (sort_asc key docs)). key d \<le> key c)"
proof -
  let ?s = "sort_asc key docs"
  have "sorted (map key (take n ?s @ drop n ?s))"
    by (simp add: sort_asc_def)
  then have "\<forall>d \<in> set (take n ?s). \<forall>c \<in> set (drop n ?s). key d \<le> key c"
    unfolding map_append sorted_append by auto
  moreover have "mset (take n ?s @ drop n ?s) = mset docs"
    by (simp add: sort_asc_def)
  ultimately show ?thesis
    unfolding to_list_def by blast
qed

lemma to_list_rest_desc:
  "\<exists>rest. mset (to_list n (sort_desc key docs) @ rest) = mset docs
     \<and> (\<forall>c \<in> set rest. \<forall>d \<in> set (to_list n (sort_desc key docs)). key c \<le> key d)"
proof -
  let ?s = "sort_desc key docs"
  have "sorted (map (\<lambda>d. - key d) (take n ?s @ drop n ?s))"
    by (simp add: sort_desc_def)
  then have "\<forall>d \<in> set (take n ?s). \<forall>c \<in> set (drop n ?s). key c \<le> key d"
    unfolding map_append sorted_append by auto
  moreover have "mset (take n ?s @ drop n ?s) = mset docs"
    by (simp add: sort_desc_def)
  ultimately show ?thesis
    unfolding to_list_def by blast
qed

lemma to_list_all:
  assumes "length docs \<le> n"
  shows "mset (to_list n (sort_asc key docs)) = mset docs"
    and "mset (to_list n (sort_desc key docs)) = mset docs"
  using assms by (simp_all add: to_list_def sort_asc_def sort_desc_def)

lemma sorted_map_upt:
  fixes g :: "nat \<Rightarrow> int"
  assumes "\<And>i j. i \<le> j \<Longrightarrow> g i \<le> g j"
  shows "sorted (map g [m..<n])"
  by (simp add: sorted_map assms sorted_wrt_mono_rel [OF _ sorted_upt])

lemma read_sorted_asc:
  assumes "\<forall>d \<in> set docs. q d" and "sorted (map key docs)"
  shows "to_list n (sort_asc key (filter q docs)) = take n docs"
  using assms by (simp add: to_list_def sort_asc_def sort_key_id_if_sorted filter_True)

lemma read_newest_first:
  assumes "\<forall>d \<in> set docs. q d" and "sorted (map key docs)" and "distinct (map key docs)"
  shows "to_list n (sort_desc key (filter q docs)) = take n (rev docs)"
proof -
  have "inj_on key (set docs)"
    using assms(3) by (simp add: distinct_map)
  then have inj: "inj_on (\<lambda>d. - key d) (set docs)"
    by (simp add: inj_on_def)
  have "sorted_wrt (\<lambda>a b. key a \<le> key b) docs"
    using assms(2) by (simp add: sorted_map)
  then have "sorted_wrt (\<lambda>a b. - key a \<le> - key b) (rev docs)"
    by (simp add: sorted_wrt_rev)
  then have "sorted (map (\<lambda>d. - key d) (rev docs))"
    by (simp only: sorted_map)
  with inj have "sort_key (\<lambda>d. - key d) docs = rev docs"
    by (intro sort_key_inj_key_eq) simp_all
  then show ?thesis
    using assms(1) by (simp add: to_list_def sort_desc_def filter_True)
qed

lemma busy_read:
  assumes "n \<le> 101"
  shows "to_list n (sort_asc valid_until
           (filter (\<lambda>c. T0 < valid_until c) (code_collection busy_db))) = map busy_code [0..<n]"
proof -
  have "sorted (map valid_until (map busy_code [0..<101]))"
    unfolding map_map by (rule sorted_map_upt) (simp add: busy_code_def)
  moreover have "\<forall>c \<in> set (map busy_code [0..<101]). T0 < valid_until c"
    by (simp add: busy_code_def US_PER_MINUTE_def)
  ultimately have "to_list n (sort_asc valid_until
      (filter (\<lambda>c. T0 < valid_until c) (map busy_code [0..<101]))) = take n (map busy_code [0..<101])"
    by (rule read_sorted_asc [rotated])
  then show ?thesis using assms by (simp add: busy_db_def take_map)
qed

text \<open>
  C6, amended: the active list of \<open>teacher_page\<close> holds codes with \<open>valid_until\<close> after
  \<open>now\<close> only, in ascending order of \<open>valid_until\<close>, and it is the first 20 of them:
  its length is the smaller of 20 and their number, and every active code left out
  expires no earlier than every code listed.  With at most 20 active codes all are
  listed.  The past list is likewise the first 30, in descending order, of the codes
  with \<open>valid_until\<close> at or before \<open>now\<close>.  So an expired code is never in the active
  list and a code still valid is never in the past list.
\<close>

theorem teacher_page_lists:
  "let act = filter (\<lambda>c. now < valid_until c) (code_collection db);
       old = filter (\<lambda>c. valid_until c \<le> now) (code_collection db);
       page = teacher_page now db
   in sorted (map valid_until (active_codes page))
      \<and> length (active_codes page) = min 20 (length act)
      \<and> (\<exists>rest. mset (active_codes page @ rest) = mset act
            \<and> (\<forall>c \<in> set rest. \<forall>d \<in> set (active_codes page). valid_until d \<le> valid_until c))
      \<and> (length act \<le> 20 \<longrightarrow> mset (active_codes page) = mset act)
      \<and> (\<forall>c \<in> set (active_codes page). now < valid_until c)
      \<and> sorted_wrt (\<lambda>a b. valid_until b \<le> valid_until a) (past_codes page)
      \<and> length (past_codes page) = min 30 (length old)
      \<and> (\<exists>rest. mset (past_codes page @ rest) = mset old
            \<and> (\<forall>c \<in> set rest. \<forall>d \<in> set (past_codes page). valid_until c \<le> valid_until d))
      \<and> (length old \<le> 30 \<longrightarrow> mset (past_codes page) = mset old)
      \<and> (\<forall>c \<in> set (past_codes page). valid_until c \<le> now)"
proof -
  let ?act = "filter (\<lambda>c. now < valid_until c) (code_collection db)"
  let ?old = "filter (\<lambda>c. valid_until c \<le> now) (code_collection db)"
  let ?A = "to_list 20 (sort_asc valid_until ?act)"
  let ?P = "to_list 30 (sort_desc valid_until ?old)"
  have a: "active_codes (teacher_page now db) = ?A"
    and p: "past_codes (teacher_page now db) = ?P"
    by (simp_all add: teacher_page_def)
  have a1: "sorted (map valid_until ?A)"
    by (rule to_list_sort_asc_sorted)
  have a2: "length ?A = min 20 (length ?act)"
    by (rule to_list_length)
  have a3: "\<exists>rest. mset (?A @ rest) = mset ?act
      \<and> (\<forall>c \<in> set rest. \<forall>d \<in> set ?A. valid_until d \<le> valid_until c)"
    by (rule to_list_rest_asc)
  have a4: "length ?act \<le> 20 \<longrightarrow> mset ?A = mset ?act"
    using to_list_all(1) by blast
  have a5: "\<forall>c \<in> set ?A. now < valid_until c"
    using to_list_subset(1) [of 20 valid_until ?act] by auto
  have p1: "sorted_wrt (\<lambda>a b. valid_until b \<le> valid_until a) ?P"
    by (rule to_list_sort_desc_sorted)
  have p2: "length ?P = min 30 (length ?old)"
    by (rule to_list_length)
  have p3: "\<exists>rest. mset (?P @ rest) = mset ?old
      \<and> (\<forall>c \<in> set rest. \<forall>d \<in> set ?P. valid_until c \<le> valid_until d)"
    by (rule to_list_rest_desc)
  have p4: "length ?old \<le> 30 \<longrightarrow> mset ?P = mset ?old"
    using to_list_all(2) by blast
  have p5: "\<forall>c \<in> set ?P. valid_until c \<le> now"
    using to_list_subset(2) [of 30 valid_until ?old] by auto
  show ?thesis
    unfolding Let_def a p
    by (intro conjI a1 a2 a3 a4 a5 p1 p2 p3 p4 p5)
qed

theorem teacher_page_lists_witness:
  "active_codes (teacher_page (T0 + 11 * US_PER_MINUTE) regen_db) = [regen_code]
   \<and> past_codes (teacher_page (T0 + 11 * US_PER_MINUTE) regen_db) = [demo_code]"
proof -
  let ?now = "T0 + 11 * US_PER_MINUTE"
  note t = teacher_page_lists [of ?now regen_db, unfolded Let_def]
  have fa: "filter (\<lambda>c. ?now < valid_until c) (code_collection regen_db) = [regen_code]"
    by (simp add: regen_db_def demo_code_def regen_code_def US_PER_MINUTE_def)
  have fo: "filter (\<lambda>c. valid_until c \<le> ?now) (code_collection regen_db) = [demo_code]"
    by (simp add: regen_db_def demo_code_def regen_code_def US_PER_MINUTE_def)
  from t have "length (filter (\<lambda>c. ?now < valid_until c) (code_collection regen_db)) \<le> 20
      \<longrightarrow> mset (active_codes (teacher_page ?now regen_db))
        = mset (filter (\<lambda>c. ?now < valid_until c) (code_collection regen_db))"
    by (elim conjE)
  then have a: "mset (active_codes (teacher_page ?now regen_db)) = {#regen_code#}"
    unfolding fa by simp
  from t have "length (filter (\<lambda>c. valid_until c \<le> ?now) (code_collection regen_db)) \<le> 30
      \<longrightarrow> mset (past_codes (teacher_page ?now regen_db))
        = mset (filter (\<lambda>c. valid_until c \<le> ?now) (code_collection regen_db))"
    by (elim conjE)
  then have p: "mset (past_codes (teacher_page ?now regen_db)) = {#demo_code#}"
    unfolding fo by simp
  from a p show ?thesis
    by (simp add: mset_single_iff_right)
qed

text \<open>
  C6 as stated fails with more than 20 active codes: on the busy day the code numbered
  20 is stored and active at \<open>T0\<close> and is not in the active list.
\<close>

theorem teacher_page_cap_counterexample:
  "busy_code 20 \<in> set (code_collection busy_db)
   \<and> T0 < valid_until (busy_code 20)
   \<and> busy_code 20 \<notin> set (active_codes (teacher_page T0 busy_db))"
proof -
  have "active_codes (teacher_page T0 busy_db) = map busy_code [0..<20]"
    by (simp add: teacher_page_def busy_read)
  moreover have "busy_code 20 \<notin> set (map busy_code [0..<20])"
  proof
    assume "busy_code 20 \<in> set (map busy_code [0..<20])"
    then obtain i where "i < 20" and "busy_code i = busy_code 20" by auto
    then have "code_id (busy_code i) = code_id (busy_code 20)" by simp
    with \<open>i < 20\<close> show False by (simp add: busy_code_def)
  qed
  moreover have "busy_code 20 \<in> busy_code ` {0..<101}"
    by (rule imageI) simp
  then have "busy_code 20 \<in> set (code_collection busy_db)"
    by (simp add: busy_db_def)
  moreover have "T0 < valid_until (busy_code 20)"
    by (simp add: busy_code_def US_PER_MINUTE_def)
  ultimately show ?thesis
    by (simp only: not_False_eq_True simp_thms)
qed

subsection \<open>Reviewing a code\<close>

lemma teacher_code_detail_found:
  assumes "ObjectId cid = Some oid"
    and "find_one (\<lambda>c. code_id c = oid) (code_collection db) = Some cd"
  shows "teacher_code_detail ObjectId cid now db =
     Inr \<lparr>ctx_code = cd, is_active = (now < valid_until cd),
          attendance_list = to_list 500 (sort_desc timestamp
            (filter (\<lambda>a. session_date a = code_session_date cd
                          \<and> attendance_code a = code_attendance_code cd)
               (attendance_collection db))),
          suspicious_list = to_list 500 (sort_desc timestamp
            (filter (\<lambda>a. session_date a = code_session_date cd
                          \<and> attendance_code a = code_attendance_code cd
                          \<and> ip_status a \<noteq> ''NORMAL'')
               (attendance_collection db)))\<rparr>"
  by (simp add: teacher_code_detail_def assms)

text \<open>
  C5, amended: for a stored code, with N attendance records matching its session date
  and code and M of them with a status other than \<open>NORMAL\<close>, \<open>teacher_code_detail\<close>
  returns an attendance list of length min(500, N) and a suspicious list of length
  min(500, M), each sorted descending by timestamp and holding the latest of the
  records it is read from; up to 500 records all are returned.  Only \<open>NORMAL\<close> is
  excluded from the suspicious list, so (up to 500) the \<open>DEV\<close> records are in it.
\<close>

theorem teacher_code_detail_lists:
  assumes "ObjectId cid = Some oid"
    and "find_one (\<lambda>c. code_id c = oid) (code_collection db) = Some cd"
  shows "\<exists>ctx. teacher_code_detail ObjectId cid now db = Inr ctx \<and> ctx_code ctx = cd \<and>
     (let recs = filter (\<lambda>a. session_date a = code_session_date cd
                          \<and> attendance_code a = code_attendance_code cd)
                   (attendance_collection db);
          flagged = filter (\<lambda>a. session_date a = code_session_date cd
                          \<and> attendance_code a = code_attendance_code cd
                          \<and> ip_status a \<noteq> ''NORMAL'')
                   (attendance_collection db)
      in length (attendance_list ctx) = min 500 (length recs)
         \<and> length (suspicious_list ctx) = min 500 (length flagged)
         \<and> sorted_wrt (\<lambda>a b. timestamp b \<le> timestamp a) (attendance_list ctx)
         \<and> sorted_wrt (\<lambda>a b. timestamp b \<le> timestamp a) (suspicious_list ctx)
         \<and> (\<exists>rest. mset (attendance_list ctx @ rest) = mset recs
               \<and> (\<forall>c \<in> set rest. \<forall>d \<in> set (attendance_list ctx). timestamp c \<le> timestamp d))
         \<and> (\<exists>rest. mset (suspicious_list ctx @ rest) = mset flagged
               \<and> (\<forall>c \<in> set rest. \<forall>d \<in> set (suspicious_list ctx). timestamp c \<le> timestamp d))
         \<and> (length recs \<le> 500 \<longrightarrow> mset (attendance_list ctx) = mset recs)
         \<and> (length flagged \<le> 500 \<longrightarrow> mset (suspicious_list ctx) = mset flagged)
         \<and> (length flagged \<le> 500 \<longrightarrow>
               (\<forall>a \<in> set recs. ip_status a = ''DEV'' \<longrightarrow> a \<in> set (suspicious_list ctx))))"
proof -
  let ?recs = "filter (\<lambda>a. session_date a = code_session_date cd
                          \<and> attendance_code a = code_attendance_code cd)
                   (attendance_collection db)"
  let ?flagged = "filter (\<lambda>a. session_date a = code_session_date cd
                          \<and> attendance_code a = code_attendance_code cd
                          \<and> ip_status a \<noteq> ''NORMAL'')
                   (attendance_collection db)"
  let ?A = "to_list 500 (sort_desc timestamp ?recs)"
  let ?S = "to_list 500 (sort_desc timestamp ?flagged)"
  let ?ctx = "\<lparr>ctx_code = cd, is_active = (now < valid_until cd),
          attendance_list = ?A, suspicious_list = ?S\<rparr>"
  have r: "teacher_code_detail ObjectId cid now db = Inr ?ctx"
    using assms by (simp add: teacher_code_detail_def)
  have c1: "length ?A = min 500 (length ?recs)" by (rule to_list_length)
  have c2: "length ?S = min 500 (length ?flagged)" by (rule to_list_length)
  have c3: "sorted_wrt (\<lambda>a b. timestamp b \<le> timestamp a) ?A"
    by (rule to_list_sort_desc_sorted)
  have c4: "sorted_wrt (\<lambda>a b. timestamp b \<le> timestamp a) ?S"
    by (rule to_list_sort_desc_sorted)
  have c5: "\<exists>rest. mset (?A @ rest) = mset ?recs
      \<and> (\<forall>c \<in> set rest. \<forall>d \<in> set ?A. timestamp c \<le> timestamp d)"
    by (rule to_list_rest_desc)
  have c6: "\<exists>rest. mset (?S @ rest) = mset ?flagged
      \<and> (\<forall>c \<in> set rest. \<forall>d \<in> set ?S. timestamp c \<le> timestamp d)"
    by (rule to_list_rest_desc)
  have c7: "length ?recs \<le> 500 \<longrightarrow> mset ?A = mset ?recs"
    using to_list_all(2) by blast
  have c8: "length ?flagged \<le> 500 \<longrightarrow> mset ?S = mset ?flagged"
    using to_list_all(2) by blast
  have c9: "length ?flagged \<le> 500 \<longrightarrow>
      (\<forall>a \<in> set ?recs. ip_status a = ''DEV'' \<longrightarrow> a \<in> set ?S)"
  proof (intro impI ballI)
    fix a assume len: "length ?flagged \<le> 500" and a: "a \<in> set ?recs" and dev: "ip_status a = ''DEV''"
    from a dev have "a \<in> set ?flagged" by simp
    moreover from len c8 have "mset ?S = mset ?flagged" by (rule rev_mp)
    then have "set ?S = set ?flagged" by (rule mset_eq_setD)
    ultimately show "a \<in> set ?S" by (simp only:)
  qed
  have props: "ctx_code ?ctx = cd \<and>
     (let recs = ?recs; flagged = ?flagged
      in length (attendance_list ?ctx) = min 500 (length recs)
         \<and> length (suspicious_list ?ctx) = min 500 (length flagged)
         \<and> sorted_wrt (\<lambda>a b. timestamp b \<le> timestamp a) (attendance_list ?ctx)
         \<and> sorted_wrt (\<lambda>a b. timestamp b \<le> timestamp a) (suspicious_list ?ctx)
         \<and> (\<exists>rest. mset (attendance_list ?ctx @ rest) = mset recs
               \<and> (\<forall>c \<in> set rest. \<forall>d \<in> set (attendance_list ?ctx). timestamp c \<le> timestamp d))
         \<and> (\<exists>rest. mset (suspicious_list ?ctx @ rest) = mset flagged
               \<and> (\<forall>c \<in> set rest. \<forall>d \<in> set (suspicious_list ?ctx). timestamp c \<le> timestamp d))
         \<and> (length recs \<le> 500 \<longrightarrow> mset (attendance_list ?ctx) = mset recs)
         \<and> (length flagged \<le> 500 \<longrightarrow> mset (suspicious_list ?ctx) = mset flagged)
         \<and> (length flagged \<le> 500 \<longrightarrow>
               (\<forall>a \<in> set recs. ip_status a = ''DEV'' \<longrightarrow> a \<in> set (suspicious_list ?ctx))))"
    unfolding Let_def detail_context.simps
    by (intro conjI refl c1 c2 c3 c4 c5 c6 c7 c8 c9)
  show ?thesis
    by (rule exI [of _ ?ctx], rule conjI, rule r, rule props)
qed


lemma review_detail:
  "teacher_code_detail demo_ObjectId ''65e1a2b30000000000000001'' (T0 + 5 * US_PER_MINUTE)
     review_db =
   Inr \<lparr>ctx_code = demo_code, is_active = True,
        attendance_list = [bob_doc, dana_doc, alice_doc ''048213'' (T0 + US_PER_MINUTE)],
        suspicious_list = [bob_doc, dana_doc]\<rparr>"
  by (simp add: teacher_code_detail_def demo_ObjectId_def find_one_def review_db_def
      demo_code_def alice_doc_def dana_doc_def bob_doc_def to_list_def sort_desc_def
      US_PER_MINUTE_def)

theorem teacher_code_detail_lists_witness:
  "\<exists>ctx. teacher_code_detail demo_ObjectId ''65e1a2b30000000000000001''
       (T0 + 5 * US_PER_MINUTE) review_db = Inr ctx
     \<and> length (attendance_list ctx) = 3 \<and> length (suspicious_list ctx) = 2
     \<and> dana_doc \<in> set (suspicious_list ctx)"
proof -
  have oid: "demo_ObjectId ''65e1a2b30000000000000001'' = Some 1"
    by (simp add: demo_ObjectId_def)
  have cd: "find_one (\<lambda>c. code_id c = 1) (code_collection review_db) = Some demo_code"
    by (simp add: find_one_def review_db_def demo_code_def)
  have recs: "filter (\<lambda>a. session_date a = code_session_date demo_code
        \<and> attendance_code a = code_attendance_code demo_code) (attendance_collection review_db)
      = [alice_doc ''048213'' (T0 + US_PER_MINUTE), dana_doc, bob_doc]"
    by (simp add: review_db_def demo_code_def alice_doc_def dana_doc_def bob_doc_def)
  have flagged: "filter (\<lambda>a. session_date a = code_session_date demo_code
        \<and> attendance_code a = code_attendance_code demo_code \<and> ip_status a \<noteq> ''NORMAL'')
        (attendance_collection review_db)
      = [dana_doc, bob_doc]"
    by (simp add: review_db_def demo_code_def alice_doc_def dana_doc_def bob_doc_def)
  have dev: "ip_status dana_doc = ''DEV''" by (simp add: dana_doc_def)
  from teacher_code_detail_lists [where ObjectId = demo_ObjectId
      and cid = "''65e1a2b30000000000000001''" and now = "T0 + 5 * US_PER_MINUTE", OF oid cd]
  obtain ctx where r: "teacher_code_detail demo_ObjectId ''65e1a2b30000000000000001''
       (T0 + 5 * US_PER_MINUTE) review_db = Inr ctx"
    and l1: "length (attendance_list ctx) = min 500 (length [alice_doc ''048213'' (T0 + US_PER_MINUTE), dana_doc, bob_doc])"
    and l2: "length (suspicious_list ctx) = min 500 (length [dana_doc, bob_doc])"
    and d: "length [dana_doc, bob_doc] \<le> 500 \<longrightarrow>
       (\<forall>a \<in> set [alice_doc ''048213'' (T0 + US_PER_MINUTE), dana_doc, bob_doc].
          ip_status a = ''DEV'' \<longrightarrow> a \<in> set (suspicious_list ctx))"
    unfolding Let_def recs flagged by (elim exE conjE)
  from d dev have "dana_doc \<in> set (suspicious_list ctx)" by simp
  with r l1 l2 show ?thesis by simp
qed

lemma crowd_asc:
  "sorted (map timestamp (map crowd_doc [0..<501]))"
  "distinct (map timestamp (map crowd_doc [0..<501]))"
proof -
  show "sorted (map timestamp (map crowd_doc [0..<501]))"
    unfolding map_map by (rule sorted_map_upt) (simp add: crowd_doc_def)
  have "inj_on (\<lambda>i. timestamp (crowd_doc i)) {0..<501}"
    by (rule inj_onI) (simp add: crowd_doc_def)
  then show "distinct (map timestamp (map crowd_doc [0..<501]))"
    unfolding map_map by (simp add: distinct_map comp_def)
qed

text \<open>
  C5 as stated fails with more than 500 records: for the crowd, 501 records match the
  code and the attendance list has the latest 500.
\<close>

theorem teacher_code_detail_cap_counterexample:
  "teacher_code_detail demo_ObjectId ''65e1a2b30000000000000001'' (T0 + 9 * US_PER_MINUTE)
     crowd_db =
   Inr \<lparr>ctx_code = demo_code, is_active = True,
        attendance_list = rev (map crowd_doc [1..<501]), suspicious_list = []\<rparr>
   \<and> length (rev (map crowd_doc [1..<501])) = 500
   \<and> length (filter (\<lambda>a. session_date a = code_session_date demo_code
        \<and> attendance_code a = code_attendance_code demo_code)
        (attendance_collection crowd_db)) = 501"
proof -
  let ?q = "\<lambda>a. session_date a = code_session_date demo_code
        \<and> attendance_code a = code_attendance_code demo_code"
  have all: "\<forall>d \<in> set (map crowd_doc [0..<501]). ?q d"
    by (simp add: crowd_doc_def demo_code_def)
  have "to_list 500 (sort_desc timestamp (filter ?q (map crowd_doc [0..<501])))
      = take 500 (rev (map crowd_doc [0..<501]))"
    using all crowd_asc by (rule read_newest_first)
  also have "\<dots> = rev (map crowd_doc [1..<501])"
    by (simp add: take_rev drop_map)
  finally have a: "to_list 500 (sort_desc timestamp
      (filter ?q (attendance_collection crowd_db))) = rev (map crowd_doc [1..<501])"
    by (simp add: crowd_db_def)
  have "filter (\<lambda>a. session_date a = code_session_date demo_code
        \<and> attendance_code a = code_attendance_code demo_code \<and> ip_status a \<noteq> ''NORMAL'')
      (map crowd_doc [0..<501]) = []"
    by (simp add: crowd_doc_def)
  then have s: "to_list 500 (sort_desc timestamp
      (filter (\<lambda>a. session_date a = code_session_date demo_code
        \<and> attendance_code a = code_attendance_code demo_code \<and> ip_status a \<noteq> ''NORMAL'')
      (attendance_collection crowd_db))) = []"
    by (simp add: crowd_db_def to_list_def sort_desc_def)
  have oid: "demo_ObjectId ''65e1a2b30000000000000001'' = Some 1"
    by (simp add: demo_ObjectId_def)
  have cd: "find_one (\<lambda>c. code_id c = 1) (code_collection crowd_db) = Some demo_code"
    by (simp add: find_one_def crowd_db_def demo_code_def)
  have act: "T0 + 9 * US_PER_MINUTE < valid_until demo_code"
    by (simp add: demo_code_def US_PER_MINUTE_def)
  have "teacher_code_detail demo_ObjectId ''65e1a2b30000000000000001'' (T0 + 9 * US_PER_MINUTE)
     crowd_db =
   Inr \<lparr>ctx_code = demo_code, is_active = True,
        attendance_list = rev (map crowd_doc [1..<501]), suspicious_list = []\<rparr>"
    unfolding teacher_code_detail_found [where ObjectId = demo_ObjectId
        and cid = "''65e1a2b30000000000000001''", OF oid cd] a s
    using act by simp
  moreover have "filter ?q (attendance_collection crowd_db) = map crowd_doc [0..<501]"
    using all by (simp add: crowd_db_def)
  ultimately show ?thesis by simp
qed

subsection \<open>Active sessions\<close>

text \<open>The loop appends to its list; what it appends does not depend on the list.\<close>

lemma sessions_loop_acc:
  "sessions_loop fmt cs acc seen = acc @ sessions_loop fmt cs [] seen"
proof (induction cs arbitrary: acc seen)
  case Nil
  show ?case by simp
next
  case (Cons c cs)
  show ?case
  proof (cases "code_session_date c \<in> seen")
    case True
    then show ?thesis using Cons.IH [of acc seen] by simp
  next
    case False
    let ?e = "\<lparr>entry_session_date = code_session_date c, end_str = fmt (valid_until c)\<rparr>"
    let ?seen = "insert (code_session_date c) seen"
    have "sessions_loop fmt (c # cs) acc seen = sessions_loop fmt cs (acc @ [?e]) ?seen"
      using False by (simp add: Let_def)
    also have "\<dots> = (acc @ [?e]) @ sessions_loop fmt cs [] ?seen"
      by (rule Cons.IH)
    also have "\<dots> = acc @ sessions_loop fmt cs [?e] ?seen"
      using Cons.IH [of "[?e]" ?seen] by simp
    also have "\<dots> = acc @ sessions_loop fmt (c # cs) [] seen"
      using False by (simp add: Let_def)
    finally show ?thesis .
  qed
qed

lemma sessions_loop_Cons:
  "sessions_loop fmt (c # cs) [] seen =
     (if code_session_date c \<in> seen then sessions_loop fmt cs [] seen
      else \<lparr>entry_session_date = code_session_date c, end_str = fmt (valid_until c)\<rparr>
             # sessions_loop fmt cs [] (insert (code_session_date c) seen))"
  using sessions_loop_acc [of fmt cs
      "[\<lparr>entry_session_date = code_session_date c, end_str = fmt (valid_until c)\<rparr>]"
      "insert (code_session_date c) seen"]
  by (simp add: Let_def)

lemma sessions_loop_dates:
  "set (map entry_session_date (sessions_loop fmt cs [] seen)) = code_session_date ` set cs - seen"
proof (induction cs arbitrary: seen)
  case Nil
  show ?case by simp
next
  case (Cons c cs)
  show ?case
    unfolding sessions_loop_Cons using Cons.IH [of seen] Cons.IH [of "insert (code_session_date c) seen"]
    by auto
qed

lemma sessions_loop_distinct:
  "distinct (map entry_session_date (sessions_loop fmt cs [] seen))"
proof (induction cs arbitrary: seen)
  case Nil
  show ?case by simp
next
  case (Cons c cs)
  have "code_session_date c \<notin>
      set (map entry_session_date (sessions_loop fmt cs [] (insert (code_session_date c) seen)))"
    unfolding sessions_loop_dates by simp
  then show ?case
    unfolding sessions_loop_Cons using Cons.IH by simp
qed

lemma sessions_loop_first:
  assumes "e \<in> set (sessions_loop fmt cs [] seen)"
  shows "\<exists>c. List.find (\<lambda>c. code_session_date c = entry_session_date e) cs = Some c
     \<and> end_str e = fmt (valid_until c)"
  using assms
proof (induction cs arbitrary: seen)
  case Nil
  then show ?case by simp
next
  case (Cons c cs)
  show ?case
  proof (cases "code_session_date c \<in> seen")
    case True
    with Cons.prems [unfolded sessions_loop_Cons]
    have e: "e \<in> set (sessions_loop fmt cs [] seen)"
      by (simp only: if_True)
    then have "entry_session_date e \<in> set (map entry_session_date (sessions_loop fmt cs [] seen))"
      by simp
    then have "entry_session_date e \<notin> seen"
      unfolding sessions_loop_dates by simp
    with True have "code_session_date c \<noteq> entry_session_date e" by auto
    with Cons.IH [OF e] show ?thesis by simp
  next
    case False
    let ?seen = "insert (code_session_date c) seen"
    from False Cons.prems [unfolded sessions_loop_Cons]
    consider "e = \<lparr>entry_session_date = code_session_date c, end_str = fmt (valid_until c)\<rparr>"
      | "e \<in> set (sessions_loop fmt cs [] ?seen)"
      by (auto simp del: sessions_loop.simps)
    then show ?thesis
    proof cases
      case 1
      then show ?thesis by simp
    next
      case 2
      then have "entry_session_date e \<in> set (map entry_session_date (sessions_loop fmt cs [] ?seen))"
        by simp
      then have "entry_session_date e \<notin> ?seen"
        unfolding sessions_loop_dates by simp
      then have "code_session_date c \<noteq> entry_session_date e" by auto
      with Cons.IH [OF 2] show ?thesis by simp
    qed
  qed
qed

lemma sessions_loop_subseq:
  "subseq (sessions_loop fmt cs [] seen)
     (map (\<lambda>c. \<lparr>entry_session_date = code_session_date c, end_str = fmt (valid_until c)\<rparr>) cs)"
proof (induction cs arbitrary: seen)
  case Nil
  show ?case by simp
next
  case (Cons c cs)
  show ?case
    unfolding sessions_loop_Cons using Cons.IH
    by (auto simp del: sessions_loop.simps intro: list_emb_Cons)
qed

text \<open>
  C8, amended: let \<open>cs\<close> be the first 100 active codes in ascending order of
  \<open>valid_until\<close>.  \<open>get_active_sessions\<close> returns one entry for each session date of
  \<open>cs\<close> and no other; the entry of a date carries the expiry of the first code of \<open>cs\<close>
  with that date, the soonest to expire; and the entries are in the order of \<open>cs\<close>.
  With at most 100 active codes \<open>cs\<close> holds all of them.
\<close>

theorem get_active_sessions_first:
  "let cs = take 100 (sort_key valid_until
              (filter (\<lambda>c. now < valid_until c) (code_collection db)));
       res = get_active_sessions fmt now db
   in distinct (map entry_session_date res)
      \<and> set (map entry_session_date res) = code_session_date ` set cs
      \<and> (\<forall>e \<in> set res. \<exists>c.
            List.find (\<lambda>c. code_session_date c = entry_session_date e) cs = Some c
            \<and> end_str e = fmt (valid_until c))
      \<and> subseq res
           (map (\<lambda>c. \<lparr>entry_session_date = code_session_date c,
                        end_str = fmt (valid_until c)\<rparr>) cs)
      \<and> sorted (map valid_until cs)
      \<and> (length (filter (\<lambda>c. now < valid_until c) (code_collection db)) \<le> 100 \<longrightarrow>
           set cs = {c \<in> set (code_collection db). now < valid_until c})"
proof -
  let ?act = "filter (\<lambda>c. now < valid_until c) (code_collection db)"
  let ?cs = "take 100 (sort_key valid_until ?act)"
  let ?res = "sessions_loop fmt ?cs [] {}"
  have r: "get_active_sessions fmt now db = ?res"
    by (simp add: get_active_sessions_def to_list_def sort_asc_def)
  have p1: "distinct (map entry_session_date ?res)"
    by (rule sessions_loop_distinct)
  have p2: "set (map entry_session_date ?res) = code_session_date ` set ?cs"
    unfolding sessions_loop_dates by simp
  have p3: "\<forall>e \<in> set ?res. \<exists>c.
            List.find (\<lambda>c. code_session_date c = entry_session_date e) ?cs = Some c
            \<and> end_str e = fmt (valid_until c)"
    using sessions_loop_first by blast
  have p4: "subseq ?res
      (map (\<lambda>c. \<lparr>entry_session_date = code_session_date c, end_str = fmt (valid_until c)\<rparr>) ?cs)"
    by (rule sessions_loop_subseq)
  have p5: "sorted (map valid_until ?cs)"
    using to_list_sort_asc_sorted [of valid_until 100 ?act]
    by (simp only: to_list_def sort_asc_def)
  have p6: "length ?act \<le> 100 \<longrightarrow> set ?cs = {c \<in> set (code_collection db). now < valid_until c}"
    by simp
  show ?thesis
    unfolding Let_def r
    by (intro conjI p1 p2 p3 p4 p5 p6)
qed

theorem get_active_sessions_first_witness:
  "get_active_sessions clock_label (T0 + 5 * US_PER_MINUTE) regen_db =
     [\<lparr>entry_session_date = ''2024-03-01'', end_str = ''03/01 09:10''\<rparr>]"
proof -
  let ?now = "T0 + 5 * US_PER_MINUTE"
  let ?res = "get_active_sessions clock_label ?now regen_db"
  have cs: "take 100 (sort_key valid_until
      (filter (\<lambda>c. ?now < valid_until c) (code_collection regen_db))) = [demo_code, regen_code]"
    by (simp add: regen_db_def demo_code_def regen_code_def US_PER_MINUTE_def)
  note t = get_active_sessions_first [of ?now regen_db clock_label, unfolded Let_def cs]
  from t have d: "distinct (map entry_session_date ?res)" by (elim conjE)
  from t have s: "set (map entry_session_date ?res) = code_session_date ` set [demo_code, regen_code]"
    by (elim conjE)
  from t have f: "\<forall>e \<in> set ?res. \<exists>c.
      List.find (\<lambda>c. code_session_date c = entry_session_date e) [demo_code, regen_code] = Some c
      \<and> end_str e = clock_label (valid_until c)"
    by (elim conjE)
  from s have s': "set (map entry_session_date ?res) = {''2024-03-01''}"
    by (simp add: demo_code_def regen_code_def)
  obtain e where res: "?res = [e]"
  proof -
    from d have "card (set (map entry_session_date ?res)) = length (map entry_session_date ?res)"
      by (rule distinct_card)
    then have "length (map entry_session_date ?res) = 1"
      unfolding s' by simp
    then have "length ?res = 1" by (simp only: length_map)
    then show ?thesis using that by (cases ?res) auto
  qed
  from s' res have e1: "entry_session_date e = ''2024-03-01''" by simp
  from f res e1 have e2: "end_str e = ''03/01 09:10''"
    by (simp add: demo_code_def clock_label_def)
  from e1 e2 have "e = \<lparr>entry_session_date = ''2024-03-01'', end_str = ''03/01 09:10''\<rparr>"
    by simp
  with res show ?thesis by simp
qed

text \<open>
  C8 as stated fails with more than 100 active codes: on the busy day the code numbered
  100 is stored and active at \<open>T0\<close>, and its session date has no entry.
\<close>

theorem get_active_sessions_cap_counterexample:
  "busy_code 100 \<in> set (code_collection busy_db)
   \<and> T0 < valid_until (busy_code 100)
   \<and> code_session_date (busy_code 100)
       \<notin> set (map entry_session_date (get_active_sessions clock_label T0 busy_db))"
proof -
  have r: "get_active_sessions clock_label T0 busy_db =
      sessions_loop clock_label (map busy_code [0..<100]) [] {}"
    by (simp add: get_active_sessions_def busy_read)
  have "code_session_date (busy_code 100) \<notin> code_session_date ` set (map busy_code [0..<100])"
  proof
    assume "code_session_date (busy_code 100) \<in> code_session_date ` set (map busy_code [0..<100])"
    then obtain i where "i < 100"
      and "code_session_date (busy_code i) = code_session_date (busy_code 100)" by auto
    then have "length (code_session_date (busy_code i)) = length (code_session_date (busy_code 100))"
      by simp
    with \<open>i < 100\<close> show False by (simp add: busy_code_def)
  qed
  then have "code_session_date (busy_code 100)
       \<notin> set (map entry_session_date (get_active_sessions clock_label T0 busy_db))"
    unfolding r sessions_loop_dates by simp
  moreover have "busy_code 100 \<in> busy_code ` {0..<101}"
    by (rule imageI) simp
  then have "busy_code 100 \<in> set (code_collection busy_db)"
    by (simp add: busy_db_def)
  moreover have "T0 < valid_until (busy_code 100)"
    by (simp add: busy_code_def US_PER_MINUTE_def)
  ultimately show ?thesis
    by (simp only: simp_thms)
qed

end
